theory Spec2Isabelle
  imports Main "HOL-Library.Word"
begin

section \<open>Common conventions\<close>

text \<open>
  Go strings are byte sequences and are modelled as \<^typ>\<open>string\<close>.  An instant
  (\<^verbatim>\<open>time.Time\<close>) is a number of nanoseconds since a fixed epoch, held in an
  unbounded \<^typ>\<open>int\<close>; \<^verbatim>\<open>a.After(b)\<close> is \<open>b < a\<close>.  Every reading of
  \<^verbatim>\<open>time.Now()\<close> is an explicit parameter.  Library code of other packages
  (SHA-256, bcrypt, base64 decoding, \<^verbatim>\<open>net/url\<close>, the HTTP transport) is a
  parameter of the function that calls it.
\<close>

type_synonym time = int

definition second :: int where
  "second = 1000000000"

definition minute :: int where
  "minute = 60 * second"

definition hour :: int where
  "hour = 60 * minute"

text \<open>
  A Go \<^verbatim>\<open>error\<close>: the sentinel \<^verbatim>\<open>gorm.ErrRecordNotFound\<close> or an error
  built by \<^verbatim>\<open>fmt.Errorf\<close>/\<^verbatim>\<open>errors.New\<close>, kept as its message.
\<close>

datatype error = ErrRecordNotFound | Err string

fun error_msg :: "error \<Rightarrow> string" where
  "error_msg ErrRecordNotFound = ''record not found''"
| "error_msg (Err m) = m"

text \<open>\<^verbatim>\<open>fmt.Errorf("<prefix>: %w", err)\<close>.\<close>

definition wrap :: "string \<Rightarrow> error \<Rightarrow> error" where
  "wrap prefix e = Err (prefix @ '': '' @ error_msg e)"

section \<open>PKCE utilities (internal/util/oauth.go)\<close>

text \<open>
  \<^verbatim>\<open>base64.RawURLEncoding.EncodeToString\<close>: the URL-safe alphabet, three bytes to
  four characters, and no \<^verbatim>\<open>=\<close> padding after a final group of one or two bytes.
\<close>

definition b64url_alphabet :: string where
  "b64url_alphabet = ''ABCDEFGHIJKLMNOPQRSTUVWXYZabcdefghijklmnopqrstuvwxyz0123456789-_''"

definition enc6 :: "nat \<Rightarrow> char" where
  "enc6 n = b64url_alphabet ! (n mod 64)"

fun raw_url_encode :: "string \<Rightarrow> string" where
  "raw_url_encode (a # b # c # rest) =
     [enc6 (of_char a div 4),
      enc6 ((of_char a mod 4) * 16 + of_char b div 16),
      enc6 ((of_char b mod 16) * 4 + of_char c div 64),
      enc6 (of_char c mod 64)] @ raw_url_encode rest"
| "raw_url_encode [a, b] =
     [enc6 (of_char a div 4),
      enc6 ((of_char a mod 4) * 16 + of_char b div 16),
      enc6 ((of_char b mod 16) * 4)]"
| "raw_url_encode [a] =
     [enc6 (of_char a div 4),
      enc6 ((of_char a mod 4) * 16)]"
| "raw_url_encode [] = []"

text \<open>
  \<^verbatim>\<open>GeneratePKCEChallenge\<close>.  The digest \<^verbatim>\<open>sha256.Sum256\<close> is the parameter
  \<open>sha256\<close>, from the bytes of the verifier to the bytes of the hash.
\<close>

definition GeneratePKCEChallenge :: "(string \<Rightarrow> string) \<Rightarrow> string \<Rightarrow> string" where
  "GeneratePKCEChallenge sha256 verifier = raw_url_encode (sha256 verifier)"

definition VerifyPKCE :: "(string \<Rightarrow> string) \<Rightarrow> string \<Rightarrow> string \<Rightarrow> string \<Rightarrow> bool" where
  "VerifyPKCE sha256 verifier challenge method =
     (if method \<noteq> ''S256'' then False
      else (let expectedChallenge = GeneratePKCEChallenge sha256 verifier
            in expectedChallenge = challenge))"

section \<open>Issuer-side tokens (internal/model/oauth_token.go)\<close>

record OAuthAccessToken =
  at_ID :: nat
  at_AccessToken :: string
  at_ClientID :: string
  at_UserID :: "nat option"
  at_Scope :: string
  at_ExpiresAt :: time
  at_RefreshTokenID :: "nat option"
  at_Audience :: string
  at_Revoked :: bool

text \<open>\<^verbatim>\<open>OAuthAccessToken.IsExpired\<close>: \<^verbatim>\<open>time.Now().After(t.ExpiresAt)\<close>.\<close>

definition at_IsExpired :: "time \<Rightarrow> OAuthAccessToken \<Rightarrow> bool" where
  "at_IsExpired now t = (at_ExpiresAt t < now)"

text \<open>\<^verbatim>\<open>OAuthAccessToken.IsValid\<close>.\<close>

definition at_IsValid :: "time \<Rightarrow> OAuthAccessToken \<Rightarrow> bool" where
  "at_IsValid now t = (\<not> at_Revoked t \<and> \<not> at_IsExpired now t)"

section \<open>Upstream sessions (internal/model/oauth_upstream_session.go)\<close>

record OAuthUpstreamSession =
  us_ID :: nat
  us_McpServerName :: string
  us_ClientID :: string
  us_ClientSecret :: string
  us_AccessToken :: string
  us_RefreshToken :: string
  us_TokenType :: string
  us_ExpiresAt :: "time option"
  us_Scope :: string
  us_AuthorizationEndpoint :: string
  us_TokenEndpoint :: string
  us_ResourceURI :: string
  us_CodeVerifier :: string
  us_RedirectURI :: string

text \<open>
  \<^verbatim>\<open>IsAccessTokenExpired\<close> and \<^verbatim>\<open>NeedsRefresh\<close>:
  \<^verbatim>\<open>time.Now().Add(5 * time.Minute).After(*s.ExpiresAt)\<close>, false on a nil expiry.
\<close>

definition IsAccessTokenExpired :: "time \<Rightarrow> OAuthUpstreamSession \<Rightarrow> bool" where
  "IsAccessTokenExpired now s =
     (case us_ExpiresAt s of
        None \<Rightarrow> False
      | Some e \<Rightarrow> e < now + 5 * minute)"

definition NeedsRefresh :: "time \<Rightarrow> OAuthUpstreamSession \<Rightarrow> bool" where
  "NeedsRefresh now s = (us_RefreshToken s \<noteq> '''' \<and> IsAccessTokenExpired now s)"

text \<open>
  \<^verbatim>\<open>%d\<close> of \<^verbatim>\<open>fmt\<close> on a status code.
\<close>

fun digit_char :: "nat \<Rightarrow> char" where
  "digit_char n = ''0123456789'' ! (n mod 10)"

fun decimal :: "nat \<Rightarrow> string" where
  "decimal n = (if n < 10 then [digit_char n] else decimal (n div 10) @ [digit_char n])"


text \<open>
  The token endpoint's answer, and what the service sends to it.  The transport
  (\<^verbatim>\<open>http.NewRequestWithContext\<close> and \<^verbatim>\<open>httpClient.Do\<close>) is a parameter: it
  rejects the request before sending it, fails to carry it, or returns a status and a
  body; \<open>decode\<close> stands for the JSON decoder on the body.
\<close>

record TokenResponse =
  tr_AccessToken :: string
  tr_TokenType :: string
  tr_ExpiresIn :: int
  tr_RefreshToken :: string
  tr_Scope :: string

record http_request =
  rq_method :: string
  rq_url :: string
  rq_form :: "(string \<times> string) list"
  rq_headers :: "(string \<times> string) list"
  rq_basic_auth :: "(string \<times> string) option"

datatype http_result =
    RequestError error
  | TransportError error
  | Response nat string

text \<open>
  \<^verbatim>\<open>RefreshAccessToken\<close>, with the requests that left the process as a second result.
\<close>

definition refresh_request :: "string \<Rightarrow> string \<Rightarrow> string \<Rightarrow> string \<Rightarrow> string \<Rightarrow> http_request" where
  "refresh_request tokenEndpoint clientID clientSecret refreshToken resource =
     \<lparr>rq_method = ''POST'', rq_url = tokenEndpoint,
      rq_form = [(''grant_type'', ''refresh_token''), (''refresh_token'', refreshToken),
                 (''resource'', resource), (''client_id'', clientID)],
      rq_headers = [(''Content-Type'', ''application/x-www-form-urlencoded''),
                    (''Accept'', ''application/json'')],
      rq_basic_auth = (if clientSecret \<noteq> '''' then Some (clientID, clientSecret) else None)\<rparr>"

definition RefreshAccessToken ::
  "(http_request \<Rightarrow> http_result) \<Rightarrow> (string \<Rightarrow> error + TokenResponse) \<Rightarrow>
   string \<Rightarrow> string \<Rightarrow> string \<Rightarrow> string \<Rightarrow> string \<Rightarrow> (error + TokenResponse) \<times> http_request list" where
  "RefreshAccessToken transport decode tokenEndpoint clientID clientSecret refreshToken resource =
     (let req = refresh_request tokenEndpoint clientID clientSecret refreshToken resource in
      case transport req of
        RequestError e \<Rightarrow> (Inl (wrap ''failed to create refresh request'' e), [])
      | TransportError e \<Rightarrow> (Inl (wrap ''failed to refresh token'' e), [req])
      | Response status body \<Rightarrow>
          if status \<noteq> 200
          then (Inl (Err (''token refresh failed with status '' @ decimal status @ '': '' @ body)), [req])
          else (case decode body of
                  Inl e \<Rightarrow> (Inl (wrap ''failed to decode token response'' e), [req])
                | Inr tokenResp \<Rightarrow> (Inr tokenResp, [req])))"

text \<open>
  The sessions table, in primary-key order, with the rows that are not soft-deleted.
  \<open>cs_faults\<close> scripts the database: each statement takes the head, and fails with the
  error there if there is one; an exhausted script means success.  \<open>first_session\<close> is
  \<^verbatim>\<open>db.Where("mcp_server_name = ?", serverName).First(&session)\<close> and
  \<open>save_session\<close> is \<^verbatim>\<open>db.Save(&session)\<close>.
\<close>

record client_store =
  cs_sessions :: "OAuthUpstreamSession list"
  cs_faults :: "error option list"

definition cs_fault :: "client_store \<Rightarrow> error option" where
  "cs_fault st = (case cs_faults st of [] \<Rightarrow> None | f # _ \<Rightarrow> f)"

definition cs_next :: "client_store \<Rightarrow> client_store" where
  "cs_next st = st\<lparr>cs_faults := drop 1 (cs_faults st)\<rparr>"

definition first_session :: "client_store \<Rightarrow> string \<Rightarrow> (error + OAuthUpstreamSession) \<times> client_store" where
  "first_session st serverName =
     (case cs_fault st of
        Some e \<Rightarrow> (Inl e, cs_next st)
      | None \<Rightarrow>
          (case List.find (\<lambda>s. us_McpServerName s = serverName) (cs_sessions st) of
             None \<Rightarrow> (Inl ErrRecordNotFound, cs_next st)
           | Some s \<Rightarrow> (Inr s, cs_next st)))"

definition save_session :: "client_store \<Rightarrow> OAuthUpstreamSession \<Rightarrow> error option \<times> client_store" where
  "save_session st s =
     (case cs_fault st of
        Some e \<Rightarrow> (Some e, cs_next st)
      | None \<Rightarrow>
          (None, (cs_next st)\<lparr>cs_sessions :=
             (if us_ID s \<in> us_ID ` set (cs_sessions st)
              then map (\<lambda>r. if us_ID r = us_ID s then s else r) (cs_sessions st)
              else cs_sessions st @ [s])\<rparr>))"

text \<open>
  \<^verbatim>\<open>time.Duration(tokenResp.ExpiresIn) * time.Second\<close>, a multiplication of 64-bit
  integers that wraps around.
\<close>

definition seconds_duration :: "int \<Rightarrow> int" where
  "seconds_duration n = sint ((word_of_int n :: 64 word) * 1000000000)"

text \<open>
  \<^verbatim>\<open>GetOrRefreshUpstreamToken\<close>: \<open>now\<close> is the clock at the refresh check and
  \<open>now2\<close> after the upstream answered.  It returns the token or the error, the store,
  and the requests sent to the upstream.
\<close>

definition GetOrRefreshUpstreamToken ::
  "(http_request \<Rightarrow> http_result) \<Rightarrow> (string \<Rightarrow> error + TokenResponse) \<Rightarrow> time \<Rightarrow> time \<Rightarrow>
   client_store \<Rightarrow> string \<Rightarrow> (error + string) \<times> client_store \<times> http_request list" where
  "GetOrRefreshUpstreamToken transport decode now now2 st serverName =
     (case first_session st serverName of
        (Inl err, st1) \<Rightarrow>
          if err = ErrRecordNotFound
          then (Inl (Err (''no OAuth session found for server '' @ serverName)), st1, [])
          else (Inl (wrap ''failed to get OAuth session'' err), st1, [])
      | (Inr session, st1) \<Rightarrow>
          if \<not> NeedsRefresh now session then (Inr (us_AccessToken session), st1, [])
          else if us_RefreshToken session = ''''
          then (Inl (Err ''access token expired and no refresh token available''), st1, [])
          else
            (case RefreshAccessToken transport decode (us_TokenEndpoint session) (us_ClientID session)
                    (us_ClientSecret session) (us_RefreshToken session) (us_ResourceURI session) of
               (Inl err, sent) \<Rightarrow> (Inl (wrap ''failed to refresh access token'' err), st1, sent)
             | (Inr tokenResp, sent) \<Rightarrow>
                 (let expiresAt = now2 + seconds_duration (tr_ExpiresIn tokenResp);
                      session1 = session\<lparr>us_AccessToken := tr_AccessToken tokenResp,
                                         us_ExpiresAt := Some expiresAt,
                                         us_TokenType := tr_TokenType tokenResp\<rparr>;
                      session2 = (if tr_RefreshToken tokenResp \<noteq> ''''
                                  then session1\<lparr>us_RefreshToken := tr_RefreshToken tokenResp\<rparr>
                                  else session1)
                  in case save_session st1 session2 of
                       (Some err, st2) \<Rightarrow> (Inl (wrap ''failed to update OAuth session'' err), st2, sent)
                     | (None, st2) \<Rightarrow> (Inr (us_AccessToken session2), st2, sent))))"


text \<open>Example data: an upstream whose token endpoint answers 200 with a new token.\<close>

definition upstream_ok :: "http_request \<Rightarrow> http_result" where
  "upstream_ok req = Response 200 ''{...}''"

definition decode_ok :: "string \<Rightarrow> error + TokenResponse" where
  "decode_ok body = Inr \<lparr>tr_AccessToken = ''new-token'', tr_TokenType = ''Bearer'',
     tr_ExpiresIn = 3600, tr_RefreshToken = '''', tr_Scope = ''''\<rparr>"

definition session_up :: "time option \<Rightarrow> string \<Rightarrow> OAuthUpstreamSession" where
  "session_up expires refreshToken =
     \<lparr>us_ID = 1, us_McpServerName = ''up'', us_ClientID = ''cid'', us_ClientSecret = '''',
      us_AccessToken = ''stored-token'', us_RefreshToken = refreshToken, us_TokenType = ''Bearer'',
      us_ExpiresAt = expires, us_Scope = '''', us_AuthorizationEndpoint = ''http://up/authorize'',
      us_TokenEndpoint = ''http://up/token'', us_ResourceURI = ''http://up'',
      us_CodeVerifier = '''', us_RedirectURI = ''http://x/cb''\<rparr>"

section \<open>Tool groups (model.ToolGroup)\<close>

text \<open>
  A \<^verbatim>\<open>datatypes.JSON\<close> column read with \<^verbatim>\<open>json.Unmarshal\<close> into a
  \<^verbatim>\<open>[]string\<close>: the column is nil (\<open>JNil\<close>), or holds bytes that decode to a
  list of strings (\<open>JStrings\<close>; the document \<^verbatim>\<open>null\<close> decodes to the empty list),
  or holds bytes the decoder rejects with an error (\<open>JMalformed\<close>).
\<close>

datatype json_strings = JNil | JStrings "string list" | JMalformed error

record ToolGroup =
  tg_Name :: string
  tg_Description :: string
  tg_IncludedTools :: json_strings
  tg_IncludedServers :: json_strings
  tg_ExcludedTools :: json_strings
  tg_IncludedPrompts :: json_strings
  tg_ExcludedPrompts :: json_strings

text \<open>
  The getters \<^verbatim>\<open>GetTools\<close>, \<^verbatim>\<open>GetServers\<close>, \<^verbatim>\<open>GetExcludedTools\<close>,
  \<^verbatim>\<open>GetPrompts\<close> and \<^verbatim>\<open>GetExcludedPrompts\<close> share one body: the empty list
  for a nil column, else the result of \<^verbatim>\<open>json.Unmarshal\<close>.
\<close>

fun unmarshal_strings :: "json_strings \<Rightarrow> error + string list" where
  "unmarshal_strings JNil = Inr []"
| "unmarshal_strings (JStrings xs) = Inr xs"
| "unmarshal_strings (JMalformed e) = Inl e"

definition GetTools :: "ToolGroup \<Rightarrow> error + string list" where
  "GetTools g = unmarshal_strings (tg_IncludedTools g)"

definition GetServers :: "ToolGroup \<Rightarrow> error + string list" where
  "GetServers g = unmarshal_strings (tg_IncludedServers g)"

definition GetExcludedTools :: "ToolGroup \<Rightarrow> error + string list" where
  "GetExcludedTools g = unmarshal_strings (tg_ExcludedTools g)"

definition GetPrompts :: "ToolGroup \<Rightarrow> error + string list" where
  "GetPrompts g = unmarshal_strings (tg_IncludedPrompts g)"

definition GetExcludedPrompts :: "ToolGroup \<Rightarrow> error + string list" where
  "GetExcludedPrompts g = unmarshal_strings (tg_ExcludedPrompts g)"

text \<open>
  The registry's \<^verbatim>\<open>Tool\<close> and \<^verbatim>\<open>Prompt\<close> rows; resolution reads their
  \<^verbatim>\<open>Name\<close> only.  The interfaces \<^verbatim>\<open>ToolResolver\<close> and
  \<^verbatim>\<open>PromptResolver\<close> are their single methods.
\<close>

record Tool =
  tool_Name :: string

record Prompt =
  prompt_Name :: string

record ToolGroupResolver =
  ListToolsByServer :: "string \<Rightarrow> error + Tool list"
  ListPromptsByServer :: "string \<Rightarrow> error + Prompt list"

text \<open>
  The working set \<^verbatim>\<open>map[string]bool\<close> is the list of its keys, without
  repetition.  Go iterates a map in an unspecified order; the model lists the keys in
  the order of their insertion, and the properties below speak of the set of keys only.
\<close>

definition key_set :: "string list \<Rightarrow> string \<Rightarrow> string list" where
  "key_set m k = (if k \<in> set m then m else m @ [k])"

fun set_all :: "string list \<Rightarrow> string list \<Rightarrow> string list" where
  "set_all m [] = m"
| "set_all m (k # ks) = set_all (key_set m k) ks"

fun delete_all :: "string list \<Rightarrow> string list \<Rightarrow> string list" where
  "delete_all m [] = m"
| "delete_all m (k # ks) = delete_all (removeAll k m) ks"

text \<open>The loop over \<^verbatim>\<open>included_servers\<close>; it returns at the first server whose lookup fails.\<close>

fun add_servers ::
  "string \<Rightarrow> (string \<Rightarrow> error + string list) \<Rightarrow> string list \<Rightarrow> string list \<Rightarrow> error + string list" where
  "add_servers what names m [] = Inr m"
| "add_servers what names m (serverName # rest) =
     (case names serverName of
        Inl err \<Rightarrow> Inl (wrap (''failed to get '' @ what @ '' for server '' @ serverName) err)
      | Inr ns \<Rightarrow> add_servers what names (set_all m ns) rest)"

definition tool_names :: "(string \<Rightarrow> error + Tool list) \<Rightarrow> string \<Rightarrow> error + string list" where
  "tool_names mcpService serverName = map_sum id (map tool_Name) (mcpService serverName)"

definition prompt_names :: "(string \<Rightarrow> error + Prompt list) \<Rightarrow> string \<Rightarrow> error + string list" where
  "prompt_names resolver serverName = map_sum id (map prompt_Name) (resolver serverName)"

definition ResolveEffectiveTools :: "ToolGroup \<Rightarrow> (string \<Rightarrow> error + Tool list) \<Rightarrow> error + string list" where
  "ResolveEffectiveTools g mcpService =
     (case GetTools g of
        Inl err \<Rightarrow> Inl (wrap ''failed to get included tools'' err)
      | Inr includedTools \<Rightarrow>
          (case GetServers g of
             Inl err \<Rightarrow> Inl (wrap ''failed to get included servers'' err)
           | Inr includedServers \<Rightarrow>
               (case add_servers ''tools'' (tool_names mcpService) (set_all [] includedTools)
                       includedServers of
                  Inl err \<Rightarrow> Inl err
                | Inr effectiveTools \<Rightarrow>
                    (case GetExcludedTools g of
                       Inl err \<Rightarrow> Inl (wrap ''failed to get excluded tools'' err)
                     | Inr excludedTools \<Rightarrow> Inr (delete_all effectiveTools excludedTools)))))"

definition ResolveEffectivePrompts :: "ToolGroup \<Rightarrow> (string \<Rightarrow> error + Prompt list) \<Rightarrow> error + string list" where
  "ResolveEffectivePrompts g resolver =
     (case GetPrompts g of
        Inl err \<Rightarrow> Inl (wrap ''failed to get included prompts'' err)
      | Inr includedPrompts \<Rightarrow>
          (case GetServers g of
             Inl err \<Rightarrow> Inl (wrap ''failed to get included servers'' err)
           | Inr includedServers \<Rightarrow>
               (case add_servers ''prompts'' (prompt_names resolver) (set_all [] includedPrompts)
                       includedServers of
                  Inl err \<Rightarrow> Inl err
                | Inr effectivePrompts \<Rightarrow>
                    (case GetExcludedPrompts g of
                       Inl err \<Rightarrow> Inl (wrap ''failed to get excluded prompts'' err)
                     | Inr excludedPrompts \<Rightarrow> Inr (delete_all effectivePrompts excludedPrompts)))))"

text \<open>The names a server contributes: those of the rows its lookup returns.\<close>

definition server_names :: "(string \<Rightarrow> error + string list) \<Rightarrow> string \<Rightarrow> string set" where
  "server_names names serverName = (case names serverName of Inl err \<Rightarrow> {} | Inr ns \<Rightarrow> set ns)"

text \<open>Example data, after the repository's tests.\<close>

definition example_group :: ToolGroup where
  "example_group =
     \<lparr>tg_Name = ''group1'', tg_Description = '''',
      tg_IncludedTools = JStrings [''server1__tool1'', ''server1__tool2''],
      tg_IncludedServers = JStrings [''server2''],
      tg_ExcludedTools = JStrings [''server1__tool2'', ''server2__tool2''],
      tg_IncludedPrompts = JStrings [''server1__prompt1''],
      tg_ExcludedPrompts = JNil\<rparr>"

definition registry_tools :: "string \<Rightarrow> error + Tool list" where
  "registry_tools serverName =
     (if serverName = ''server2''
      then Inr [\<lparr>tool_Name = ''server2__tool1''\<rparr>, \<lparr>tool_Name = ''server2__tool2''\<rparr>]
      else if serverName = ''down'' then Inl (Err ''connection refused'')
      else Inr [])"

definition registry_prompts :: "string \<Rightarrow> error + Prompt list" where
  "registry_prompts serverName =
     (if serverName = ''server2'' then Inr [\<lparr>prompt_Name = ''server2__prompt1''\<rparr>] else Inr [])"

section \<open>MCP clients and tool access (model.McpClient)\<close>

record McpClient =
  mc_Name :: string
  mc_Description :: string
  mc_AccessToken :: string
  mc_AllowList :: json_strings
  mc_AllowedToolGroups :: json_strings

text \<open>\<^verbatim>\<open>CheckHasServerAccess\<close>: false on a nil or undecodable allow list.\<close>

definition CheckHasServerAccess :: "McpClient \<Rightarrow> string \<Rightarrow> bool" where
  "CheckHasServerAccess c serverName =
     (case mc_AllowList c of
        JNil \<Rightarrow> False
      | JMalformed err \<Rightarrow> False
      | JStrings allowedServers \<Rightarrow> serverName \<in> set allowedServers)"

definition GetAllowedToolGroups :: "McpClient \<Rightarrow> error + string list" where
  "GetAllowedToolGroups c = unmarshal_strings (mc_AllowedToolGroups c)"

text \<open>
  \<^verbatim>\<open>splitServerToolName\<close>: the loop over \<open>i\<close> from 0 while \<open>i < len(name) - 1\<close>
  (a signed comparison: no iteration on the empty name).
\<close>

function splitLoop :: "string \<Rightarrow> nat \<Rightarrow> string \<times> string \<times> bool" where
  "splitLoop name i =
     (if int i < int (length name) - 1
      then (if take 2 (drop i name) = ''__''
            then (take i name, drop (i + 2) name, True)
            else splitLoop name (i + 1))
      else ('''', '''', False))"
  by pat_completeness auto
termination
  by (relation "measure (\<lambda>(name, i). length name - i)") auto

definition splitServerToolName :: "string \<Rightarrow> string \<times> string \<times> bool" where
  "splitServerToolName name = splitLoop name 0"

text \<open>
  \<^verbatim>\<open>toolExistsInAllowedGroups\<close>.  The interface \<^verbatim>\<open>ToolGroupToolChecker\<close> is its
  method \<^verbatim>\<open>GetToolGroup\<close>; a group the checker does not return is skipped.
\<close>

fun toolExistsInAllowedGroups ::
  "string \<Rightarrow> string list \<Rightarrow> (string \<Rightarrow> error + ToolGroup) \<Rightarrow> ToolGroupResolver \<Rightarrow> error + bool" where
  "toolExistsInAllowedGroups toolName [] checker resolver = Inr False"
| "toolExistsInAllowedGroups toolName (groupName # rest) checker resolver =
     (case checker groupName of
        Inl err \<Rightarrow> toolExistsInAllowedGroups toolName rest checker resolver
      | Inr grp \<Rightarrow>
          (case ResolveEffectiveTools grp (ListToolsByServer resolver) of
             Inl err \<Rightarrow> Inl (wrap (''failed to resolve tools for group '' @ groupName) err)
           | Inr effectiveTools \<Rightarrow>
               if toolName \<in> set effectiveTools then Inr True
               else toolExistsInAllowedGroups toolName rest checker resolver))"

definition CheckHasToolAccess ::
  "McpClient \<Rightarrow> string \<Rightarrow> (string \<Rightarrow> error + ToolGroup) \<Rightarrow> ToolGroupResolver \<Rightarrow> error + bool" where
  "CheckHasToolAccess c toolName checker resolver =
     (case GetAllowedToolGroups c of
        Inl err \<Rightarrow> Inl (wrap ''failed to get allowed tool groups'' err)
      | Inr allowedGroups \<Rightarrow>
          if length allowedGroups > 0
          then toolExistsInAllowedGroups toolName allowedGroups checker resolver
          else (case splitServerToolName toolName of
                  (serverName, _, ok) \<Rightarrow>
                    if \<not> ok then Inl (Err (''invalid tool name format: '' @ toolName))
                    else Inr (CheckHasServerAccess c serverName)))"

text \<open>
  The words of the access rule: a listed group contains a tool when the group exists,
  resolves, and the tool is in its effective set; a listed group is unresolvable when it
  exists and its resolution fails.
\<close>

definition group_contains ::
  "(string \<Rightarrow> error + ToolGroup) \<Rightarrow> ToolGroupResolver \<Rightarrow> string \<Rightarrow> string \<Rightarrow> bool" where
  "group_contains checker resolver toolName groupName =
     (case checker groupName of
        Inl err \<Rightarrow> False
      | Inr grp \<Rightarrow>
          (case ResolveEffectiveTools grp (ListToolsByServer resolver) of
             Inl err \<Rightarrow> False
           | Inr effectiveTools \<Rightarrow> toolName \<in> set effectiveTools))"

definition group_unresolvable ::
  "(string \<Rightarrow> error + ToolGroup) \<Rightarrow> ToolGroupResolver \<Rightarrow> string \<Rightarrow> bool" where
  "group_unresolvable checker resolver groupName =
     (case checker groupName of
        Inl err \<Rightarrow> False
      | Inr grp \<Rightarrow> isl (ResolveEffectiveTools grp (ListToolsByServer resolver)))"

text \<open>Example data: the precedence scenario, and a group whose server lookup fails.\<close>

definition group_g1 :: ToolGroup where
  "group_g1 =
     \<lparr>tg_Name = ''g1'', tg_Description = '''', tg_IncludedTools = JStrings [''s1__t''],
      tg_IncludedServers = JNil, tg_ExcludedTools = JNil, tg_IncludedPrompts = JNil,
      tg_ExcludedPrompts = JNil\<rparr>"

definition group_down :: ToolGroup where
  "group_down =
     \<lparr>tg_Name = ''gdown'', tg_Description = '''', tg_IncludedTools = JNil,
      tg_IncludedServers = JStrings [''down''], tg_ExcludedTools = JNil,
      tg_IncludedPrompts = JNil, tg_ExcludedPrompts = JNil\<rparr>"

definition acl_checker :: "string \<Rightarrow> error + ToolGroup" where
  "acl_checker name =
     (if name = ''g1'' then Inr group_g1
      else if name = ''gdown'' then Inr group_down
      else Inl (Err ''tool group not found''))"

definition acl_resolver :: ToolGroupResolver where
  "acl_resolver = \<lparr>ListToolsByServer = registry_tools, ListPromptsByServer = registry_prompts\<rparr>"

definition acl_client :: "string list \<Rightarrow> string list \<Rightarrow> McpClient" where
  "acl_client allow groups =
     \<lparr>mc_Name = ''client'', mc_Description = '''', mc_AccessToken = ''secret'',
      mc_AllowList = JStrings allow, mc_AllowedToolGroups = JStrings groups\<rparr>"

section \<open>Audit trail (internal/service/audit/audit.go)\<close>

text \<open>
  A Go value held in an \<^verbatim>\<open>interface{}\<close>, as far as the audit code and
  \<^verbatim>\<open>json.Marshal\<close> tell values apart: scalars, a \<^verbatim>\<open>map[string]interface{}\<close>
  (\<open>GMap\<close>, its entries listed once per key), a slice (\<open>GList\<close>), any other value
  that marshals to a JSON object, such as a struct or a map of another type
  (\<open>GStruct\<close>, with its JSON field names), and a value \<^verbatim>\<open>json.Marshal\<close> rejects
  (\<open>GUnsupported\<close>, a channel or a function).
\<close>

datatype gval =
    GString string
  | GInt int
  | GBool bool
  | GNil
  | GMap "(string \<times> gval) list"
  | GList "gval list"
  | GStruct "(string \<times> gval) list"
  | GUnsupported

text \<open>A JSON document, as stored in the \<^verbatim>\<open>changes\<close> column.\<close>

datatype json =
    JString string
  | JNumber int
  | JBool bool
  | JNull
  | JObject "(string \<times> json) list"
  | JArray "json list"

definition sensitiveFields :: "string \<Rightarrow> bool" where
  "sensitiveFields key =
     (key = ''access_token'' \<or> key = ''bearer_token'' \<or> key = ''password''
      \<or> key = ''secret'' \<or> key = ''token'')"

text \<open>
  \<^verbatim>\<open>filterSensitiveData\<close>: one entry of the result per entry of the map; the type
  assertion \<^verbatim>\<open>value.(map[string]interface{})\<close> succeeds on \<open>GMap\<close> only.
\<close>

fun filterSensitiveData :: "(string \<times> gval) list \<Rightarrow> (string \<times> gval) list" where
  "filterSensitiveData [] = []"
| "filterSensitiveData ((key, val) # rest) =
     (if sensitiveFields key then (key, GString ''[REDACTED]'')
      else (case val of
              GMap nestedMap \<Rightarrow> (key, GMap (filterSensitiveData nestedMap))
            | _ \<Rightarrow> (key, val))) # filterSensitiveData rest"

text \<open>
  \<^verbatim>\<open>json.Marshal\<close> on these values (the order of an object's members, which the
  encoder sorts, is not modelled); \<open>None\<close> is its error.
\<close>

fun marshal :: "gval \<Rightarrow> json option"
  and marshal_list :: "gval list \<Rightarrow> json list option"
  and marshal_fields :: "(string \<times> gval) list \<Rightarrow> (string \<times> json) list option" where
  "marshal (GString s) = Some (JString s)"
| "marshal (GInt i) = Some (JNumber i)"
| "marshal (GBool b) = Some (JBool b)"
| "marshal GNil = Some JNull"
| "marshal (GMap kvs) = map_option JObject (marshal_fields kvs)"
| "marshal (GList vs) = map_option JArray (marshal_list vs)"
| "marshal (GStruct fs) = map_option JObject (marshal_fields fs)"
| "marshal GUnsupported = None"
| "marshal_list [] = Some []"
| "marshal_list (v # vs) =
     (case marshal v of
        None \<Rightarrow> None
      | Some d \<Rightarrow> map_option ((#) d) (marshal_list vs))"
| "marshal_fields [] = Some []"
| "marshal_fields ((k, v) # kvs) =
     (case marshal v of
        None \<Rightarrow> None
      | Some d \<Rightarrow> map_option ((#) (k, d)) (marshal_fields kvs))"

text \<open>\<^verbatim>\<open>marshalChanges\<close>: the filtered map as JSON, or \<^verbatim>\<open>{}\<close> when marshalling fails.\<close>

definition marshalChanges :: "(string \<times> gval) list \<Rightarrow> json" where
  "marshalChanges changes =
     (let filtered = filterSensitiveData changes in
      case marshal (GMap filtered) of
        None \<Rightarrow> JObject []
      | Some data \<Rightarrow> data)"

record AuditContext =
  ac_ActorType :: string
  ac_ActorID :: string
  ac_IPAddress :: string
  ac_UserAgent :: string

record AuditLog =
  al_EntityType :: string
  al_EntityID :: string
  al_EntityName :: string
  al_Operation :: string
  al_Changes :: json
  al_ActorType :: string
  al_ActorID :: string
  al_IPAddress :: string
  al_UserAgent :: string
  al_Success :: bool
  al_ErrorMsg :: string

record audit_store =
  au_rows :: "AuditLog list"
  au_faults :: "error option list"

text \<open>
  \<^verbatim>\<open>logAsync\<close>.  The context carries the audit context or not.  The write runs in a
  goroutine the caller does not wait for; the model performs it at once.  A failed write
  is reported on standard output only and stores nothing.
\<close>

definition logAsync :: "AuditContext option \<Rightarrow> AuditLog \<Rightarrow> audit_store \<Rightarrow> audit_store" where
  "logAsync ctx log st =
     (let log1 = (case ctx of
                    Some auditCtx \<Rightarrow>
                      log\<lparr>al_ActorType := ac_ActorType auditCtx, al_ActorID := ac_ActorID auditCtx,
                          al_IPAddress := ac_IPAddress auditCtx, al_UserAgent := ac_UserAgent auditCtx\<rparr>
                  | None \<Rightarrow> log\<lparr>al_ActorType := ''system'', al_ActorID := ''system''\<rparr>)
      in case au_faults st of
           Some err # later \<Rightarrow> st\<lparr>au_faults := later\<rparr>
         | None # later \<Rightarrow> st\<lparr>au_rows := au_rows st @ [log1], au_faults := later\<rparr>
         | [] \<Rightarrow> st\<lparr>au_rows := au_rows st @ [log1]\<rparr>)"

definition new_log :: "string \<Rightarrow> string \<Rightarrow> string \<Rightarrow> string \<Rightarrow> json \<Rightarrow> AuditLog" where
  "new_log entityType entityID entityName operation changes =
     \<lparr>al_EntityType = entityType, al_EntityID = entityID, al_EntityName = entityName,
      al_Operation = operation, al_Changes = changes, al_ActorType = '''', al_ActorID = '''',
      al_IPAddress = '''', al_UserAgent = '''', al_Success = True, al_ErrorMsg = ''''\<rparr>"

definition LogCreate ::
  "AuditContext option \<Rightarrow> string \<Rightarrow> string \<Rightarrow> string \<Rightarrow> gval \<Rightarrow> audit_store \<Rightarrow> audit_store" where
  "LogCreate ctx entityType entityID entityName data st =
     (let changes = marshalChanges [(''created'', data)]
      in logAsync ctx (new_log entityType entityID entityName ''CREATE'' changes) st)"

definition LogUpdate ::
  "AuditContext option \<Rightarrow> string \<Rightarrow> string \<Rightarrow> string \<Rightarrow> (string \<times> gval) list \<Rightarrow> audit_store \<Rightarrow> audit_store" where
  "LogUpdate ctx entityType entityID entityName changes st =
     (let changesJSON = marshalChanges changes
      in logAsync ctx (new_log entityType entityID entityName ''UPDATE'' changesJSON) st)"

definition LogEnable ::
  "AuditContext option \<Rightarrow> string \<Rightarrow> string \<Rightarrow> string \<Rightarrow> (string \<times> gval) list \<Rightarrow> audit_store \<Rightarrow> audit_store" where
  "LogEnable ctx entityType entityID entityName details st =
     (let changesJSON = marshalChanges details
      in logAsync ctx (new_log entityType entityID entityName ''ENABLE'' changesJSON) st)"

definition LogDisable ::
  "AuditContext option \<Rightarrow> string \<Rightarrow> string \<Rightarrow> string \<Rightarrow> (string \<times> gval) list \<Rightarrow> audit_store \<Rightarrow> audit_store" where
  "LogDisable ctx entityType entityID entityName details st =
     (let changesJSON = marshalChanges details
      in logAsync ctx (new_log entityType entityID entityName ''DISABLE'' changesJSON) st)"

text \<open>
  The invariant of the claim, on a stored document: wherever an object has a member under
  a sensitive key, inside arrays as well, the member is the string \<^verbatim>\<open>[REDACTED]\<close>.
\<close>

fun json_leak_free :: "json \<Rightarrow> bool"
  and json_leak_free_list :: "json list \<Rightarrow> bool"
  and json_leak_free_members :: "(string \<times> json) list \<Rightarrow> bool" where
  "json_leak_free (JObject kvs) = json_leak_free_members kvs"
| "json_leak_free (JArray ds) = json_leak_free_list ds"
| "json_leak_free (JString s) = True"
| "json_leak_free (JNumber i) = True"
| "json_leak_free (JBool b) = True"
| "json_leak_free JNull = True"
| "json_leak_free_list [] = True"
| "json_leak_free_list (d # ds) = (json_leak_free d \<and> json_leak_free_list ds)"
| "json_leak_free_members [] = True"
| "json_leak_free_members ((k, d) # kvs) =
     ((if sensitiveFields k then d = JString ''[REDACTED]'' else json_leak_free d)
      \<and> json_leak_free_members kvs)"

text \<open>The same on a Go value, before marshalling.\<close>

fun leak_free :: "gval \<Rightarrow> bool"
  and leak_free_list :: "gval list \<Rightarrow> bool"
  and leak_free_fields :: "(string \<times> gval) list \<Rightarrow> bool" where
  "leak_free (GMap kvs) = leak_free_fields kvs"
| "leak_free (GList vs) = leak_free_list vs"
| "leak_free (GStruct fs) = leak_free_fields fs"
| "leak_free (GString s) = True"
| "leak_free (GInt i) = True"
| "leak_free (GBool b) = True"
| "leak_free GNil = True"
| "leak_free GUnsupported = True"
| "leak_free_list [] = True"
| "leak_free_list (v # vs) = (leak_free v \<and> leak_free_list vs)"
| "leak_free_fields [] = True"
| "leak_free_fields ((k, v) # kvs) =
     ((if sensitiveFields k then v = GString ''[REDACTED]'' else leak_free v)
      \<and> leak_free_fields kvs)"

text \<open>
  What redaction reaches: the entries of the map and of the string-keyed maps nested in
  it through maps only.
\<close>

fun maps_redacted :: "(string \<times> gval) list \<Rightarrow> bool" where
  "maps_redacted [] = True"
| "maps_redacted ((k, v) # kvs) =
     ((if sensitiveFields k then v = GString ''[REDACTED]''
       else (case v of GMap nested \<Rightarrow> maps_redacted nested | _ \<Rightarrow> True))
      \<and> maps_redacted kvs)"

text \<open>
  A payload hides no key when every value redaction does not descend into (a slice, a
  struct) is free of sensitive keys already.
\<close>

fun hides_no_key :: "(string \<times> gval) list \<Rightarrow> bool" where
  "hides_no_key [] = True"
| "hides_no_key ((k, v) # kvs) =
     ((if sensitiveFields k then True
       else (case v of GMap nested \<Rightarrow> hides_no_key nested | _ \<Rightarrow> leak_free v))
      \<and> hides_no_key kvs)"

text \<open>Example payloads: a nested map, and a map inside a list.\<close>

definition nested_payload :: "(string \<times> gval) list" where
  "nested_payload =
     [(''config'', GMap [(''name'', GString ''test''), (''access_token'', GString ''secret'')]),
      (''password'', GString ''pass789''),
      (''tools'', GList [GString ''a'', GString ''b''])]"

definition list_payload :: "(string \<times> gval) list" where
  "list_payload = [(''items'', GList [GMap [(''password'', GString ''hunter2'')]])]"

section \<open>The issuer's store (internal/model, internal/service/oauth)\<close>

record OAuthClient =
  oc_ClientID :: string
  oc_ClientSecret :: string
  oc_ClientName :: string
  oc_RedirectURIs :: json_strings
  oc_GrantTypes :: json_strings
  oc_Scopes :: json_strings
  oc_IsConfidential :: bool
  oc_TokenEndpointAuthMethod :: string
  oc_UserID :: "nat option"

record OAuthAuthorizationCode =
  code_ID :: nat
  code_Code :: string
  code_ClientID :: string
  code_UserID :: nat
  code_RedirectURI :: string
  code_Scope :: string
  code_ExpiresAt :: time
  code_CodeChallenge :: string
  code_CodeChallengeMethod :: string
  code_Used :: bool

text \<open>\<^verbatim>\<open>OAuthAuthorizationCode.IsExpired\<close> and \<^verbatim>\<open>IsValid\<close>.\<close>

definition code_IsExpired :: "time \<Rightarrow> OAuthAuthorizationCode \<Rightarrow> bool" where
  "code_IsExpired now c = (code_ExpiresAt c < now)"

definition code_IsValid :: "time \<Rightarrow> OAuthAuthorizationCode \<Rightarrow> bool" where
  "code_IsValid now c = (\<not> code_Used c \<and> \<not> code_IsExpired now c)"

record OAuthRefreshToken =
  rt_ID :: nat
  rt_RefreshToken :: string
  rt_ClientID :: string
  rt_UserID :: nat
  rt_Scope :: string
  rt_ExpiresAt :: time
  rt_Revoked :: bool
  rt_RotationCount :: int

text \<open>
  The tables the issuer reads and writes, each in primary-key order and holding the rows
  that are not soft-deleted.  \<open>is_faults\<close> scripts the database: each statement takes the
  head, and fails with the error there if there is one; an exhausted script means success.
  \<open>is_entropy\<close> scripts \<^verbatim>\<open>crypto/rand\<close> in the same way, a read returning its bytes
  or failing.  \<open>is_log\<close> records the statements issued, oldest first.
\<close>

datatype stmt =
    SelectClient string
  | SelectCode string
  | InsertCode string
  | UpdateCodeUsed string
  | InsertAccessToken string
  | InsertRefreshToken string
  | UpdateAccessTokenRevoked string
  | UpdateRefreshTokenRevoked string

record issuer_store =
  is_clients :: "OAuthClient list"
  is_codes :: "OAuthAuthorizationCode list"
  is_access_tokens :: "OAuthAccessToken list"
  is_refresh_tokens :: "OAuthRefreshToken list"
  is_faults :: "error option list"
  is_entropy :: "(error + string) list"
  is_log :: "stmt list"

definition fault_of :: "issuer_store \<Rightarrow> error option" where
  "fault_of st = (case is_faults st of [] \<Rightarrow> None | f # later \<Rightarrow> f)"

definition exec :: "stmt \<Rightarrow> issuer_store \<Rightarrow> error option \<times> issuer_store" where
  "exec q st = (fault_of st, st\<lparr>is_faults := drop 1 (is_faults st), is_log := is_log st @ [q]\<rparr>)"

text \<open>\<^verbatim>\<open>OAuthService.GetClient\<close>: nil without error when no row matches.\<close>

definition GetClient :: "issuer_store \<Rightarrow> string \<Rightarrow> (error + OAuthClient option) \<times> issuer_store" where
  "GetClient st clientID =
     (case exec (SelectClient clientID) st of
        (Some err, st1) \<Rightarrow>
          if err = ErrRecordNotFound then (Inr None, st1)
          else (Inl (wrap ''failed to get OAuth client'' err), st1)
      | (None, st1) \<Rightarrow>
          (Inr (List.find (\<lambda>c. oc_ClientID c = clientID) (is_clients st1)), st1))"

text \<open>
  \<^verbatim>\<open>OAuthService.ValidateClientCredentials\<close>; \<open>bcrypt\<close> stands for
  \<^verbatim>\<open>bcrypt.CompareHashAndPassword\<close> succeeding on (hash, password).
\<close>

definition ValidateClientCredentials ::
  "(string \<Rightarrow> string \<Rightarrow> bool) \<Rightarrow> issuer_store \<Rightarrow> string \<Rightarrow> string \<Rightarrow> (error + OAuthClient) \<times> issuer_store" where
  "ValidateClientCredentials bcrypt st clientID clientSecret =
     (case GetClient st clientID of
        (Inl err, st1) \<Rightarrow> (Inl err, st1)
      | (Inr None, st1) \<Rightarrow> (Inl (Err ''client not found''), st1)
      | (Inr (Some client), st1) \<Rightarrow>
          if oc_IsConfidential client \<and> \<not> bcrypt (oc_ClientSecret client) clientSecret
          then (Inl (Err ''invalid client secret''), st1)
          else (Inr client, st1))"

text \<open>
  \<^verbatim>\<open>RevokeAccessToken\<close> and \<^verbatim>\<open>RevokeRefreshToken\<close>: one \<^verbatim>\<open>UPDATE ... SET revoked
  = true WHERE <token> = ?\<close>.  The update of no row is not an error.
\<close>

definition RevokeAccessToken :: "issuer_store \<Rightarrow> string \<Rightarrow> error option \<times> issuer_store" where
  "RevokeAccessToken st token =
     (case exec (UpdateAccessTokenRevoked token) st of
        (Some err, st1) \<Rightarrow> (Some err, st1)
      | (None, st1) \<Rightarrow>
          (None, st1\<lparr>is_access_tokens :=
             map (\<lambda>t. if at_AccessToken t = token then t\<lparr>at_Revoked := True\<rparr> else t)
               (is_access_tokens st1)\<rparr>))"

definition RevokeRefreshToken :: "issuer_store \<Rightarrow> string \<Rightarrow> error option \<times> issuer_store" where
  "RevokeRefreshToken st token =
     (case exec (UpdateRefreshTokenRevoked token) st of
        (Some err, st1) \<Rightarrow> (Some err, st1)
      | (None, st1) \<Rightarrow>
          (None, st1\<lparr>is_refresh_tokens :=
             map (\<lambda>t. if rt_RefreshToken t = token then t\<lparr>rt_Revoked := True\<rparr> else t)
               (is_refresh_tokens st1)\<rparr>))"

section \<open>The HTTP boundary (OAuth handlers)\<close>

text \<open>
  What the handlers read of a request: the query parameters, the form (as
  \<^verbatim>\<open>ShouldBind\<close> and \<^verbatim>\<open>PostForm\<close> see it) or the error of parsing it, the
  \<^verbatim>\<open>Authorization\<close> header (empty when absent), the host and whether TLS is on, and
  the value the context holds under \<^verbatim>\<open>user_id\<close>.
\<close>

datatype ctx_value = Absent | UintValue nat | OtherValue

record gin_request =
  gr_query :: "(string \<times> string) list"
  gr_form :: "(string \<times> string) list"
  gr_form_error :: "error option"
  gr_authorization :: string
  gr_host :: string
  gr_tls :: bool
  gr_user_id :: ctx_value

text \<open>\<^verbatim>\<open>c.Query(key)\<close>, \<^verbatim>\<open>c.PostForm(key)\<close>: the first value, or the empty string.\<close>

definition param :: "(string \<times> string) list \<Rightarrow> string \<Rightarrow> string" where
  "param kvs key = (case map_of kvs key of None \<Rightarrow> '''' | Some v \<Rightarrow> v)"

text \<open>
  A parsed URL: its query as \<^verbatim>\<open>url.Values\<close> (one entry per key), and the rest of it.
  \<^verbatim>\<open>url.Parse\<close> followed by \<^verbatim>\<open>Query()\<close> is a parameter of the handlers.
\<close>

record url =
  url_rest :: string
  url_query :: "(string \<times> string list) list"


record OAuthTokenResponse =
  otr_AccessToken :: string
  otr_TokenType :: string
  otr_ExpiresIn :: int
  otr_RefreshToken :: string
  otr_Scope :: string

text \<open>
  What a handler writes: a JSON object of strings with a status, a token response, a bare
  status, a redirect to a URL, or nothing because it panicked.
\<close>

datatype response =
    RespJSON nat "(string \<times> string) list"
  | RespToken nat OAuthTokenResponse
  | RespStatus nat
  | RespRedirect nat url
  | RespPanic


definition oauth_error :: "nat \<Rightarrow> string \<Rightarrow> string \<Rightarrow> response" where
  "oauth_error code err description =
     RespJSON code [(''error'', err), (''error_description'', description)]"

text \<open>\<^verbatim>\<open>strings.SplitN(s, ":", 2)\<close> when it yields two parts.\<close>

fun split_colon :: "string \<Rightarrow> (string \<times> string) option" where
  "split_colon [] = None"
| "split_colon (c # cs) =
     (if c = CHR '':'' then Some ([], cs)
      else map_option (\<lambda>(a, b). (c # a, b)) (split_colon cs))"

text \<open>
  \<^verbatim>\<open>extractClientCredentials\<close>; \<open>b64decode\<close> stands for
  \<^verbatim>\<open>base64.StdEncoding.DecodeString\<close>, \<open>None\<close> its error.
\<close>

definition extractClientCredentials ::
  "(string \<Rightarrow> string option) \<Rightarrow> gin_request \<Rightarrow> string \<Rightarrow> string \<Rightarrow> string \<times> string" where
  "extractClientCredentials b64decode c bodyClientID bodyClientSecret =
     (let auth = gr_authorization c in
      if take 6 auth = ''Basic '' then
        (case b64decode (drop 6 auth) of
           Some decoded \<Rightarrow>
             (case split_colon decoded of
                Some (clientID, clientSecret) \<Rightarrow> (clientID, clientSecret)
              | None \<Rightarrow> (bodyClientID, bodyClientSecret))
         | None \<Rightarrow> (bodyClientID, bodyClientSecret))
      else (bodyClientID, bodyClientSecret))"

text \<open>
  \<^verbatim>\<open>ShouldBind\<close> into \<^verbatim>\<open>OAuthRevokeRequest\<close>: the form must parse and the
  \<^verbatim>\<open>token\<close> field, which is \<^verbatim>\<open>binding:"required"\<close>, must not be empty.
\<close>

definition bind_revoke :: "gin_request \<Rightarrow> error + string" where
  "bind_revoke c =
     (case gr_form_error c of
        Some err \<Rightarrow> Inl err
      | None \<Rightarrow>
          if param (gr_form c) ''token'' = ''''
          then Inl (Err ''Key: 'OAuthRevokeRequest.Token' Error:Field validation for 'Token' failed on the 'required' tag'')
          else Inr (param (gr_form c) ''token''))"

text \<open>\<^verbatim>\<open>OAuthRevokeHandler\<close>.\<close>

definition OAuthRevokeHandler ::
  "(string \<Rightarrow> string option) \<Rightarrow> (string \<Rightarrow> string \<Rightarrow> bool) \<Rightarrow> issuer_store \<Rightarrow> gin_request
     \<Rightarrow> response \<times> issuer_store" where
  "OAuthRevokeHandler b64decode bcrypt st c =
     (case bind_revoke c of
        Inl err \<Rightarrow> (oauth_error 400 ''invalid_request'' (error_msg err), st)
      | Inr token \<Rightarrow>
          (case extractClientCredentials b64decode c '''' '''' of
             (clientID, clientSecret) \<Rightarrow>
               if clientID = ''''
               then (oauth_error 400 ''invalid_client'' ''Client authentication required'', st)
               else
                 (case ValidateClientCredentials bcrypt st clientID clientSecret of
                    (Inl err, st1) \<Rightarrow>
                      (oauth_error 401 ''invalid_client'' ''Invalid client credentials'', st1)
                  | (Inr client, st1) \<Rightarrow>
                      (case RevokeAccessToken st1 token of
                         (Some err, st2) \<Rightarrow>
                           (case RevokeRefreshToken st2 token of
                              (_, st3) \<Rightarrow> (RespStatus 200, st3))
                       | (None, st2) \<Rightarrow> (RespStatus 200, st2)))))"

text \<open>Example data: a confidential client, its Basic credentials, and a token it holds.\<close>

definition b64decode_table :: "string \<Rightarrow> string option" where
  "b64decode_table s = (if s = ''Y2lkOnNlY3JldA=='' then Some ''cid:secret'' else None)"

definition bcrypt_table :: "string \<Rightarrow> string \<Rightarrow> bool" where
  "bcrypt_table hash password = (hash = ''$2a$10$hash-of-secret'' \<and> password = ''secret'')"

definition client_cid :: OAuthClient where
  "client_cid =
     \<lparr>oc_ClientID = ''cid'', oc_ClientSecret = ''$2a$10$hash-of-secret'', oc_ClientName = ''A'',
      oc_RedirectURIs = JStrings [''http://x/cb''],
      oc_GrantTypes = JStrings [''authorization_code'', ''refresh_token''],
      oc_Scopes = JStrings [], oc_IsConfidential = True,
      oc_TokenEndpointAuthMethod = ''client_secret_basic'', oc_UserID = None\<rparr>"

definition issued_token :: "string \<Rightarrow> OAuthAccessToken" where
  "issued_token value =
     \<lparr>at_ID = 1, at_AccessToken = value, at_ClientID = ''cid'', at_UserID = None,
      at_Scope = ''mcp:read'', at_ExpiresAt = hour, at_RefreshTokenID = None,
      at_Audience = ''http://x'', at_Revoked = False\<rparr>"

definition issuer_with :: "OAuthAuthorizationCode list \<Rightarrow> OAuthAccessToken list \<Rightarrow> error option list
    \<Rightarrow> (error + string) list \<Rightarrow> issuer_store" where
  "issuer_with codes tokens faults entropy =
     \<lparr>is_clients = [client_cid], is_codes = codes, is_access_tokens = tokens,
      is_refresh_tokens = [], is_faults = faults, is_entropy = entropy, is_log = []\<rparr>"

definition revoke_request :: "string \<Rightarrow> string \<Rightarrow> gin_request" where
  "revoke_request token authorization =
     \<lparr>gr_query = [], gr_form = [(''token'', token)], gr_form_error = None,
      gr_authorization = authorization, gr_host = ''x'', gr_tls = False, gr_user_id = Absent\<rparr>"

section \<open>The authorization-code grant\<close>

record OAuthTokenRequest =
  tk_GrantType :: string
  tk_Code :: string
  tk_RedirectURI :: string
  tk_CodeVerifier :: string
  tk_RefreshToken :: string
  tk_ClientID :: string
  tk_ClientSecret :: string
  tk_Scope :: string
  tk_Resource :: string

text \<open>\<^verbatim>\<open>OAuthService.GetAuthorizationCode\<close>: nil without error when no row matches.\<close>

definition GetAuthorizationCode ::
  "issuer_store \<Rightarrow> string \<Rightarrow> (error + OAuthAuthorizationCode option) \<times> issuer_store" where
  "GetAuthorizationCode st code =
     (case exec (SelectCode code) st of
        (Some err, st1) \<Rightarrow>
          if err = ErrRecordNotFound then (Inr None, st1)
          else (Inl (wrap ''failed to get authorization code'' err), st1)
      | (None, st1) \<Rightarrow>
          (Inr (List.find (\<lambda>c. code_Code c = code) (is_codes st1)), st1))"

text \<open>
  \<^verbatim>\<open>OAuthService.MarkAuthorizationCodeUsed\<close>: \<^verbatim>\<open>UPDATE ... SET used = true WHERE
  code = ?\<close>, with no condition on \<^verbatim>\<open>used\<close> and no look at the rows affected.
\<close>

definition mark_used :: "string \<Rightarrow> OAuthAuthorizationCode \<Rightarrow> OAuthAuthorizationCode" where
  "mark_used code c = (if code_Code c = code then c\<lparr>code_Used := True\<rparr> else c)"

definition MarkAuthorizationCodeUsed :: "issuer_store \<Rightarrow> string \<Rightarrow> error option \<times> issuer_store" where
  "MarkAuthorizationCodeUsed st code =
     (case exec (UpdateCodeUsed code) st of
        (Some err, st1) \<Rightarrow> (Some err, st1)
      | (None, st1) \<Rightarrow> (None, st1\<lparr>is_codes := map (mark_used code) (is_codes st1)\<rparr>))"

text \<open>
  \<^verbatim>\<open>util.GenerateOAuthToken\<close>: 32 bytes of \<^verbatim>\<open>crypto/rand\<close>, base64url-encoded.
  A read beyond the scripted entropy fails.
\<close>

definition GenerateOAuthToken :: "issuer_store \<Rightarrow> (error + string) \<times> issuer_store" where
  "GenerateOAuthToken st =
     (case is_entropy st of
        [] \<Rightarrow> (Inl (wrap ''failed to generate random token'' (Err ''no entropy'')), st)
      | Inl err # later \<Rightarrow>
          (Inl (wrap ''failed to generate random token'' err), st\<lparr>is_entropy := later\<rparr>)
      | Inr b # later \<Rightarrow> (Inr (raw_url_encode b), st\<lparr>is_entropy := later\<rparr>))"

text \<open>The next value of an auto-increment primary key.\<close>

definition next_id :: "nat list \<Rightarrow> nat" where
  "next_id ids = Suc (fold max ids 0)"

text \<open>
  \<^verbatim>\<open>IssueRefreshToken\<close> and \<^verbatim>\<open>IssueAccessToken\<close>.  The insert fails on a fault
  and on a token value the unique index already holds.
\<close>

definition IssueRefreshToken ::
  "issuer_store \<Rightarrow> time \<Rightarrow> string \<Rightarrow> nat \<Rightarrow> string \<Rightarrow> (error + OAuthRefreshToken) \<times> issuer_store" where
  "IssueRefreshToken st now clientID userID scope =
     (case GenerateOAuthToken st of
        (Inl err, st1) \<Rightarrow> (Inl (wrap ''failed to generate refresh token'' err), st1)
      | (Inr token, st1) \<Rightarrow>
          (let refreshToken =
                 \<lparr>rt_ID = next_id (map rt_ID (is_refresh_tokens st1)), rt_RefreshToken = token,
                  rt_ClientID = clientID, rt_UserID = userID, rt_Scope = scope,
                  rt_ExpiresAt = now + 30 * 24 * hour, rt_Revoked = False, rt_RotationCount = 0\<rparr>
           in case exec (InsertRefreshToken token) st1 of
                (Some err, st2) \<Rightarrow> (Inl (wrap ''failed to create refresh token'' err), st2)
              | (None, st2) \<Rightarrow>
                  if token \<in> rt_RefreshToken ` set (is_refresh_tokens st2)
                  then (Inl (wrap ''failed to create refresh token''
                               (Err ''UNIQUE constraint failed: oauth_refresh_tokens.refresh_token'')), st2)
                  else (Inr refreshToken,
                        st2\<lparr>is_refresh_tokens := is_refresh_tokens st2 @ [refreshToken]\<rparr>)))"

definition IssueAccessToken ::
  "issuer_store \<Rightarrow> time \<Rightarrow> string \<Rightarrow> nat option \<Rightarrow> string \<Rightarrow> string \<Rightarrow> nat option
     \<Rightarrow> (error + OAuthAccessToken) \<times> issuer_store" where
  "IssueAccessToken st now clientID userID scope audience refreshTokenID =
     (case GenerateOAuthToken st of
        (Inl err, st1) \<Rightarrow> (Inl (wrap ''failed to generate access token'' err), st1)
      | (Inr token, st1) \<Rightarrow>
          (let accessToken =
                 \<lparr>at_ID = next_id (map at_ID (is_access_tokens st1)), at_AccessToken = token,
                  at_ClientID = clientID, at_UserID = userID, at_Scope = scope,
                  at_ExpiresAt = now + 1 * hour, at_RefreshTokenID = refreshTokenID,
                  at_Audience = audience, at_Revoked = False\<rparr>
           in case exec (InsertAccessToken token) st1 of
                (Some err, st2) \<Rightarrow> (Inl (wrap ''failed to create access token'' err), st2)
              | (None, st2) \<Rightarrow>
                  if token \<in> at_AccessToken ` set (is_access_tokens st2)
                  then (Inl (wrap ''failed to create access token''
                               (Err ''UNIQUE constraint failed: oauth_access_tokens.access_token'')), st2)
                  else (Inr accessToken,
                        st2\<lparr>is_access_tokens := is_access_tokens st2 @ [accessToken]\<rparr>)))"

text \<open>\<^verbatim>\<open>getServerURL\<close>.\<close>

definition getServerURL :: "gin_request \<Rightarrow> string" where
  "getServerURL c = (if gr_tls c then ''https'' else ''http'') @ ''://'' @ gr_host c"

text \<open>
  \<^verbatim>\<open>int(time.Until(t).Seconds())\<close>: whole seconds of the duration, truncated towards
  zero.
\<close>

definition whole_seconds :: "int \<Rightarrow> int" where
  "whole_seconds d = (if 0 \<le> d then d div second else - ((- d) div second))"

text \<open>
  \<^verbatim>\<open>handleAuthorizationCodeGrant\<close>, in the two parts of its body: the checks, from
  the required parameters to the PKCE verification, which end with a response or with the
  authorization code as it was read; and the marking of the code followed by the issuance
  of the tokens.  \<open>now\<close> is the clock while the handler runs, \<open>now2\<close> when it writes
  the response.
\<close>

definition authcode_checks ::
  "(string \<Rightarrow> string) \<Rightarrow> time \<Rightarrow> issuer_store \<Rightarrow> OAuthClient \<Rightarrow> OAuthTokenRequest
     \<Rightarrow> (response + OAuthAuthorizationCode) \<times> issuer_store" where
  "authcode_checks sha256 now st client req =
     (if tk_Code req = '''' \<or> tk_RedirectURI req = '''' \<or> tk_CodeVerifier req = ''''
      then (Inl (oauth_error 400 ''invalid_request''
                   ''code, redirect_uri, and code_verifier are required''), st)
      else
        (case GetAuthorizationCode st (tk_Code req) of
           (Inl err, st1) \<Rightarrow>
             (Inl (oauth_error 400 ''invalid_grant'' ''Invalid authorization code''), st1)
         | (Inr None, st1) \<Rightarrow>
             (Inl (oauth_error 400 ''invalid_grant'' ''Invalid authorization code''), st1)
         | (Inr (Some authCode), st1) \<Rightarrow>
             if \<not> code_IsValid now authCode
             then (Inl (oauth_error 400 ''invalid_grant''
                          ''Authorization code expired or already used''), st1)
             else if code_ClientID authCode \<noteq> oc_ClientID client
             then (Inl (oauth_error 400 ''invalid_grant''
                          ''Authorization code was issued to a different client''), st1)
             else if code_RedirectURI authCode \<noteq> tk_RedirectURI req
             then (Inl (oauth_error 400 ''invalid_grant'' ''redirect_uri does not match''), st1)
             else if \<not> VerifyPKCE sha256 (tk_CodeVerifier req) (code_CodeChallenge authCode)
                        (code_CodeChallengeMethod authCode)
             then (Inl (oauth_error 400 ''invalid_grant'' ''Invalid code_verifier''), st1)
             else (Inr authCode, st1)))"

definition authcode_issue ::
  "time \<Rightarrow> time \<Rightarrow> issuer_store \<Rightarrow> gin_request \<Rightarrow> OAuthClient \<Rightarrow> OAuthTokenRequest
     \<Rightarrow> OAuthAuthorizationCode \<Rightarrow> response \<times> issuer_store" where
  "authcode_issue now now2 st c client req authCode =
     (case MarkAuthorizationCodeUsed st (tk_Code req) of
        (marked, st1) \<Rightarrow>
          (let audience = (if tk_Resource req = '''' then getServerURL c else tk_Resource req) in
           case IssueRefreshToken st1 now (oc_ClientID client) (code_UserID authCode)
                  (code_Scope authCode) of
             (Inl err, st2) \<Rightarrow> (oauth_error 500 ''server_error'' ''Failed to issue tokens'', st2)
           | (Inr refreshToken, st2) \<Rightarrow>
               (case IssueAccessToken st2 now (oc_ClientID client) (Some (code_UserID authCode))
                       (code_Scope authCode) audience (Some (rt_ID refreshToken)) of
                  (Inl err, st3) \<Rightarrow>
                    (oauth_error 500 ''server_error'' ''Failed to issue tokens'', st3)
                | (Inr accessToken, st3) \<Rightarrow>
                    (RespToken 200
                       \<lparr>otr_AccessToken = at_AccessToken accessToken, otr_TokenType = ''Bearer'',
                        otr_ExpiresIn = whole_seconds (at_ExpiresAt accessToken - now2),
                        otr_RefreshToken = rt_RefreshToken refreshToken,
                        otr_Scope = at_Scope accessToken\<rparr>, st3))))"

definition handleAuthorizationCodeGrant ::
  "(string \<Rightarrow> string) \<Rightarrow> time \<Rightarrow> time \<Rightarrow> issuer_store \<Rightarrow> gin_request \<Rightarrow> OAuthClient
     \<Rightarrow> OAuthTokenRequest \<Rightarrow> response \<times> issuer_store" where
  "handleAuthorizationCodeGrant sha256 now now2 st c client req =
     (case authcode_checks sha256 now st client req of
        (Inl resp, st1) \<Rightarrow> (resp, st1)
      | (Inr authCode, st1) \<Rightarrow> authcode_issue now now2 st1 c client req authCode)"

text \<open>
  Two exchanges served concurrently, in the interleaving where both handlers finish their
  checks before either marks the code.
\<close>

definition exchanges_interleaved ::
  "(string \<Rightarrow> string) \<Rightarrow> time \<Rightarrow> time \<Rightarrow> issuer_store \<Rightarrow> gin_request \<Rightarrow> OAuthClient
     \<Rightarrow> OAuthTokenRequest \<Rightarrow> OAuthTokenRequest \<Rightarrow> response \<times> response \<times> issuer_store" where
  "exchanges_interleaved sha256 now now2 st c client reqA reqB =
     (case authcode_checks sha256 now st client reqA of
        (checkedA, st1) \<Rightarrow>
          (case authcode_checks sha256 now st1 client reqB of
             (checkedB, st2) \<Rightarrow>
               (case (case checkedA of
                        Inl resp \<Rightarrow> (resp, st2)
                      | Inr authCode \<Rightarrow> authcode_issue now now2 st2 c client reqA authCode) of
                  (respA, st3) \<Rightarrow>
                    (case (case checkedB of
                             Inl resp \<Rightarrow> (resp, st3)
                           | Inr authCode \<Rightarrow> authcode_issue now now2 st3 c client reqB authCode) of
                       (respB, st4) \<Rightarrow> (respA, respB, st4)))))"

text \<open>A row of the codes table after a step: as it was, or with \<open>used\<close> set.\<close>

definition used_step :: "OAuthAuthorizationCode \<Rightarrow> OAuthAuthorizationCode \<Rightarrow> bool" where
  "used_step old new =
     ((new = old \<or> new = old\<lparr>code_Used := True\<rparr>) \<and> (code_Used new \<or> \<not> code_Used old))"

text \<open>Example data: a code bound to the S256 challenge of the verifier \<^verbatim>\<open>verifier-1\<close>.\<close>

definition sha256_table :: "string \<Rightarrow> string" where
  "sha256_table v =
     (if v = ''verifier-1''
      then [CHR 0xC5, CHR 0x36, CHR 0x11, CHR 0x04, CHR 0xB4, CHR 0xC3, CHR 0xB7, CHR 0x58,
            CHR 0x12, CHR 0xDF, CHR 0xEA, CHR 0xF0, CHR 0xFF, CHR 0x71, CHR 0x41, CHR 0x55,
            CHR 0xA7, CHR 0xD9, CHR 0xD2, CHR 0x23, CHR 0x60, CHR 0xF5, CHR 0xB6, CHR 0x58,
            CHR 0x05, CHR 0xB1, CHR 0xBC, CHR 0x7D, CHR 0x13, CHR 0xEF, CHR 0x90, CHR 0x4B]
      else [])"

definition code_K :: OAuthAuthorizationCode where
  "code_K =
     \<lparr>code_ID = 1, code_Code = ''K'', code_ClientID = ''cid'', code_UserID = 7,
      code_RedirectURI = ''http://x/cb'', code_Scope = ''mcp:read'', code_ExpiresAt = 10 * minute,
      code_CodeChallenge = ''xTYRBLTDt1gS3-rw_3FBVafZ0iNg9bZYBbG8fRPvkEs'',
      code_CodeChallengeMethod = ''S256'', code_Used = False\<rparr>"

definition exchange_K :: OAuthTokenRequest where
  "exchange_K =
     \<lparr>tk_GrantType = ''authorization_code'', tk_Code = ''K'', tk_RedirectURI = ''http://x/cb'',
      tk_CodeVerifier = ''verifier-1'', tk_RefreshToken = '''', tk_ClientID = '''',
      tk_ClientSecret = '''', tk_Scope = '''', tk_Resource = ''''\<rparr>"

definition token_request :: gin_request where
  "token_request =
     \<lparr>gr_query = [], gr_form = [], gr_form_error = None,
      gr_authorization = ''Basic Y2lkOnNlY3JldA=='', gr_host = ''x'', gr_tls = False,
      gr_user_id = Absent\<rparr>"

section \<open>The authorization endpoint\<close>














section \<open>Properties\<close>

subsection \<open>Access-token validity\<close>

text \<open>
  C5 (as the code has it).  An access token is valid if and only if it is not revoked
  and the current time is not after \<open>expires_at\<close>, that is \<open>now \<le> expires_at\<close>:
  the comparison \<^verbatim>\<open>After\<close> is strict, so at the instant \<open>now = expires_at\<close> an
  unrevoked token is still valid.
\<close>

theorem C5_IsValid_iff_not_revoked_and_not_after:
  "at_IsValid now t = (\<not> at_Revoked t \<and> now \<le> at_ExpiresAt t)"
  by (auto simp: at_IsValid_def at_IsExpired_def)

theorem C5_IsValid_witness:
  "at_IsValid 100 \<lparr>at_ID = 1, at_AccessToken = ''tok'', at_ClientID = ''c'', at_UserID = None,
     at_Scope = ''mcp:read'', at_ExpiresAt = 100, at_RefreshTokenID = None,
     at_Audience = ''http://x'', at_Revoked = False\<rparr>"
  using C5_IsValid_iff_not_revoked_and_not_after [of 100 "\<lparr>at_ID = 1, at_AccessToken = ''tok'',
     at_ClientID = ''c'', at_UserID = None, at_Scope = ''mcp:read'', at_ExpiresAt = 100,
     at_RefreshTokenID = None, at_Audience = ''http://x'', at_Revoked = False\<rparr>"]
  by simp

text \<open>
  The claim as stated (\<open>valid iff \<not>revoked \<and> now < expires_at\<close>) fails at the
  boundary: an unrevoked token with \<open>expires_at = 100\<close> is valid at \<open>now = 100\<close>.
\<close>

theorem C5_strict_bound_counterexample:
  "at_IsValid 100 \<lparr>at_ID = 1, at_AccessToken = ''tok'', at_ClientID = ''c'', at_UserID = None,
     at_Scope = ''mcp:read'', at_ExpiresAt = 100, at_RefreshTokenID = None,
     at_Audience = ''http://x'', at_Revoked = False\<rparr>
   \<and> \<not> (\<not> at_Revoked \<lparr>at_ID = 1, at_AccessToken = ''tok'', at_ClientID = ''c'', at_UserID = None,
     at_Scope = ''mcp:read'', at_ExpiresAt = 100, at_RefreshTokenID = None,
     at_Audience = ''http://x'', at_Revoked = False\<rparr>
     \<and> (100::int) < at_ExpiresAt \<lparr>at_ID = 1, at_AccessToken = ''tok'', at_ClientID = ''c'',
     at_UserID = None, at_Scope = ''mcp:read'', at_ExpiresAt = 100, at_RefreshTokenID = None,
     at_Audience = ''http://x'', at_Revoked = False\<rparr>)"
  by (simp add: at_IsValid_def at_IsExpired_def)

subsection \<open>PKCE\<close>

lemma length_b64url_alphabet: "length b64url_alphabet = 64"
  by (simp add: b64url_alphabet_def)

lemma enc6_in_alphabet: "enc6 n \<in> set b64url_alphabet"
  unfolding enc6_def by (rule nth_mem) (simp add: length_b64url_alphabet)

lemma pad_not_in_alphabet: "CHR ''='' \<notin> set b64url_alphabet"
  by (simp add: b64url_alphabet_def)

lemma raw_url_encode_alphabet: "set (raw_url_encode bs) \<subseteq> set b64url_alphabet"
  by (induction bs rule: raw_url_encode.induct) (simp_all add: enc6_in_alphabet)

lemma raw_url_encode_length: "length (raw_url_encode bs) = (4 * length bs + 2) div 3"
  by (induction bs rule: raw_url_encode.induct) simp_all

text \<open>
  C7.  For every verifier \<open>v\<close>, \<open>VerifyPKCE v (GeneratePKCEChallenge v) "S256"\<close> is
  true, where the challenge is the unpadded URL-safe base64 of the SHA-256 digest of
  \<open>v\<close> (no \<^verbatim>\<open>=\<close> occurs in it); for every verifier and challenge, verification
  under the method \<^verbatim>\<open>plain\<close>, and under any method other than \<^verbatim>\<open>S256\<close>, is false.
  The statement holds for every digest function.
\<close>

theorem C7_pkce_round_trip_and_method:
  "VerifyPKCE sha256 v (GeneratePKCEChallenge sha256 v) ''S256''
   \<and> GeneratePKCEChallenge sha256 v = raw_url_encode (sha256 v)
   \<and> CHR ''='' \<notin> set (GeneratePKCEChallenge sha256 v)
   \<and> \<not> VerifyPKCE sha256 v c ''plain''
   \<and> (m \<noteq> ''S256'' \<longrightarrow> \<not> VerifyPKCE sha256 v c m)"
  using raw_url_encode_alphabet [of "sha256 v"] pad_not_in_alphabet
  by (auto simp: VerifyPKCE_def GeneratePKCEChallenge_def)

theorem C7_pkce_witness:
  "VerifyPKCE sha256_table ''verifier-1'' ''xTYRBLTDt1gS3-rw_3FBVafZ0iNg9bZYBbG8fRPvkEs'' ''S256''
   \<and> ''plain'' \<noteq> ''S256''
   \<and> \<not> VerifyPKCE sha256_table ''verifier-1'' ''xTYRBLTDt1gS3-rw_3FBVafZ0iNg9bZYBbG8fRPvkEs'' ''plain''"
proof -
  note inst = C7_pkce_round_trip_and_method [of sha256_table "''verifier-1''"
      "''xTYRBLTDt1gS3-rw_3FBVafZ0iNg9bZYBbG8fRPvkEs''" "''plain''"]
  have g: "GeneratePKCEChallenge sha256_table ''verifier-1''
      = ''xTYRBLTDt1gS3-rw_3FBVafZ0iNg9bZYBbG8fRPvkEs''"
    by code_simp
  from inst have "VerifyPKCE sha256_table ''verifier-1''
      (GeneratePKCEChallenge sha256_table ''verifier-1'') ''S256''"
    by (rule conjunct1)
  then have a: "VerifyPKCE sha256_table ''verifier-1''
      ''xTYRBLTDt1gS3-rw_3FBVafZ0iNg9bZYBbG8fRPvkEs'' ''S256''"
    by (simp only: g)
  have n: "''plain'' \<noteq> ''S256''" by simp
  with inst have b: "\<not> VerifyPKCE sha256_table ''verifier-1''
      ''xTYRBLTDt1gS3-rw_3FBVafZ0iNg9bZYBbG8fRPvkEs'' ''plain''"
    by blast
  from a n b show ?thesis by blast
qed

subsection \<open>The upstream token supplier\<close>
lemma NeedsRefresh_iff:
  "NeedsRefresh now s \<longleftrightarrow>
     us_RefreshToken s \<noteq> '''' \<and> (\<exists>e. us_ExpiresAt s = Some e \<and> e - now < 5 * minute)"
  by (auto simp: NeedsRefresh_def IsAccessTokenExpired_def split: option.splits)

lemma first_session_found:
  "cs_fault st = None \<Longrightarrow> List.find (\<lambda>r. us_McpServerName r = name) (cs_sessions st) = Some s
   \<Longrightarrow> first_session st name = (Inr s, cs_next st)"
  by (simp add: first_session_def)

lemma first_session_missing:
  "cs_fault st = None \<Longrightarrow> \<forall>r \<in> set (cs_sessions st). us_McpServerName r \<noteq> name
   \<Longrightarrow> first_session st name = (Inl ErrRecordNotFound, cs_next st)"
proof -
  assume f: "cs_fault st = None" and n: "\<forall>r \<in> set (cs_sessions st). us_McpServerName r \<noteq> name"
  from n have "List.find (\<lambda>r. us_McpServerName r = name) (cs_sessions st) = None"
    by (simp add: find_None_iff)
  with f show ?thesis by (simp add: first_session_def)
qed

lemma RefreshAccessToken_sent:
  "RefreshAccessToken transport decode ep cid sec rt res = (Inr t, sent)
   \<Longrightarrow> sent = [refresh_request ep cid sec rt res]"
  by (auto simp: RefreshAccessToken_def Let_def split: http_result.splits if_splits sum.splits)

lemma GetOrRefresh_never_no_refresh_token_error:
  "fst (GetOrRefreshUpstreamToken transport decode now now2 st name)
     \<noteq> Inl (Err ''access token expired and no refresh token available'')"
  by (auto simp: GetOrRefreshUpstreamToken_def NeedsRefresh_def wrap_def Let_def
           split: prod.splits sum.splits option.splits if_splits)

text \<open>
  C4 (as the code has it).  \<open>needs_refresh\<close> holds iff the refresh token is non-empty,
  an expiry is recorded and \<open>expires_at - now\<close> is strictly less than five minutes.
  The supplier fails with "no OAuth session found for server X" when no session is stored
  for X; returns the stored access token when the session does not need refresh; never
  fails with "access token expired and no refresh token available" (a session that needs
  refresh has a refresh token); and otherwise sends the refresh request and, when the
  request and the save of the session succeed, returns the new access token.
\<close>

theorem C4_get_or_refresh:
  "(NeedsRefresh now s \<longleftrightarrow>
      us_RefreshToken s \<noteq> '''' \<and> (\<exists>e. us_ExpiresAt s = Some e \<and> e - now < 5 * minute))
   \<and> (cs_fault st = None \<and> (\<forall>r \<in> set (cs_sessions st). us_McpServerName r \<noteq> name) \<longrightarrow>
        GetOrRefreshUpstreamToken transport decode now now2 st name
          = (Inl (Err (''no OAuth session found for server '' @ name)), cs_next st, []))
   \<and> (cs_fault st = None
        \<and> List.find (\<lambda>r. us_McpServerName r = name) (cs_sessions st) = Some s
        \<and> \<not> NeedsRefresh now s \<longrightarrow>
        GetOrRefreshUpstreamToken transport decode now now2 st name
          = (Inr (us_AccessToken s), cs_next st, []))
   \<and> fst (GetOrRefreshUpstreamToken transport decode now now2 st name)
        \<noteq> Inl (Err ''access token expired and no refresh token available'')
   \<and> (cs_fault st = None
        \<and> List.find (\<lambda>r. us_McpServerName r = name) (cs_sessions st) = Some s
        \<and> NeedsRefresh now s
        \<and> RefreshAccessToken transport decode (us_TokenEndpoint s) (us_ClientID s)
              (us_ClientSecret s) (us_RefreshToken s) (us_ResourceURI s) = (Inr t, sent)
        \<and> cs_fault (cs_next st) = None \<longrightarrow>
        fst (GetOrRefreshUpstreamToken transport decode now now2 st name) = Inr (tr_AccessToken t)
        \<and> snd (snd (GetOrRefreshUpstreamToken transport decode now now2 st name))
            = [refresh_request (us_TokenEndpoint s) (us_ClientID s) (us_ClientSecret s)
                 (us_RefreshToken s) (us_ResourceURI s)])"
proof (intro conjI impI)
  show "NeedsRefresh now s \<longleftrightarrow>
      us_RefreshToken s \<noteq> '''' \<and> (\<exists>e. us_ExpiresAt s = Some e \<and> e - now < 5 * minute)"
    by (rule NeedsRefresh_iff)
next
  assume "cs_fault st = None \<and> (\<forall>r \<in> set (cs_sessions st). us_McpServerName r \<noteq> name)"
  then have "first_session st name = (Inl ErrRecordNotFound, cs_next st)"
    by (simp add: first_session_missing)
  then show "GetOrRefreshUpstreamToken transport decode now now2 st name
          = (Inl (Err (''no OAuth session found for server '' @ name)), cs_next st, [])"
    by (simp add: GetOrRefreshUpstreamToken_def)
next
  assume "cs_fault st = None
        \<and> List.find (\<lambda>r. us_McpServerName r = name) (cs_sessions st) = Some s
        \<and> \<not> NeedsRefresh now s"
  then have "first_session st name = (Inr s, cs_next st)" and "\<not> NeedsRefresh now s"
    by (simp_all add: first_session_found)
  then show "GetOrRefreshUpstreamToken transport decode now now2 st name
          = (Inr (us_AccessToken s), cs_next st, [])"
    by (simp add: GetOrRefreshUpstreamToken_def)
next
  show "fst (GetOrRefreshUpstreamToken transport decode now now2 st name)
        \<noteq> Inl (Err ''access token expired and no refresh token available'')"
    by (rule GetOrRefresh_never_no_refresh_token_error)
next
  assume a: "cs_fault st = None
        \<and> List.find (\<lambda>r. us_McpServerName r = name) (cs_sessions st) = Some s
        \<and> NeedsRefresh now s
        \<and> RefreshAccessToken transport decode (us_TokenEndpoint s) (us_ClientID s)
              (us_ClientSecret s) (us_RefreshToken s) (us_ResourceURI s) = (Inr t, sent)
        \<and> cs_fault (cs_next st) = None"
  then have f: "first_session st name = (Inr s, cs_next st)"
    by (simp add: first_session_found)
  from a have n: "NeedsRefresh now s" and rt: "us_RefreshToken s \<noteq> ''''"
    by (simp_all add: NeedsRefresh_def)
  from a have r: "RefreshAccessToken transport decode (us_TokenEndpoint s) (us_ClientID s)
              (us_ClientSecret s) (us_RefreshToken s) (us_ResourceURI s) = (Inr t, sent)"
    by simp
  from a have ok: "cs_fault (cs_next st) = None" by simp
  show "fst (GetOrRefreshUpstreamToken transport decode now now2 st name) = Inr (tr_AccessToken t)"
    using f n rt r ok
    by (simp add: GetOrRefreshUpstreamToken_def save_session_def Let_def)
  show "snd (snd (GetOrRefreshUpstreamToken transport decode now now2 st name))
            = [refresh_request (us_TokenEndpoint s) (us_ClientID s) (us_ClientSecret s)
                 (us_RefreshToken s) (us_ResourceURI s)]"
    using f n rt r ok RefreshAccessToken_sent [OF r]
    by (simp add: GetOrRefreshUpstreamToken_def save_session_def Let_def)
qed

theorem C4_get_or_refresh_witness:
  "NeedsRefresh 0 (session_up (Some (4 * minute)) ''r1'')
   \<and> fst (GetOrRefreshUpstreamToken upstream_ok decode_ok 0 1
          \<lparr>cs_sessions = [session_up (Some (4 * minute)) ''r1''], cs_faults = []\<rparr> ''up'')
       = Inr ''new-token''
   \<and> GetOrRefreshUpstreamToken upstream_ok decode_ok 0 1
          \<lparr>cs_sessions = [session_up (Some (6 * minute)) ''r1''], cs_faults = []\<rparr> ''up''
       = (Inr ''stored-token'',
          \<lparr>cs_sessions = [session_up (Some (6 * minute)) ''r1''], cs_faults = []\<rparr>, [])
   \<and> GetOrRefreshUpstreamToken upstream_ok decode_ok 0 1
          \<lparr>cs_sessions = [], cs_faults = []\<rparr> ''up''
       = (Inl (Err ''no OAuth session found for server up''),
          \<lparr>cs_sessions = [], cs_faults = []\<rparr>, [])"
proof -
  let ?s = "session_up (Some (4 * minute)) ''r1''"
  let ?st = "\<lparr>cs_sessions = [?s], cs_faults = []\<rparr>"
  let ?sb = "session_up (Some (6 * minute)) ''r1''"
  let ?stb = "\<lparr>cs_sessions = [?sb], cs_faults = []\<rparr>"
  let ?ste = "\<lparr>cs_sessions = [], cs_faults = []\<rparr> :: client_store"
  let ?t = "\<lparr>tr_AccessToken = ''new-token'', tr_TokenType = ''Bearer'',
     tr_ExpiresIn = 3600, tr_RefreshToken = '''', tr_Scope = ''''\<rparr>"
  let ?rq = "refresh_request (us_TokenEndpoint ?s) (us_ClientID ?s) (us_ClientSecret ?s)
              (us_RefreshToken ?s) (us_ResourceURI ?s)"
  have n: "NeedsRefresh 0 ?s"
    using C4_get_or_refresh [of 0 ?s ?st "''up''" upstream_ok decode_ok 1 ?t "[?rq]", THEN conjunct1]
    by (simp add: session_up_def minute_def second_def)
  have f: "cs_fault ?st = None" "cs_fault (cs_next ?st) = None"
    by (simp_all add: cs_fault_def cs_next_def)
  have l: "List.find (\<lambda>r. us_McpServerName r = ''up'') (cs_sessions ?st) = Some ?s"
    by (simp add: session_up_def)
  have r: "RefreshAccessToken upstream_ok decode_ok (us_TokenEndpoint ?s) (us_ClientID ?s)
              (us_ClientSecret ?s) (us_RefreshToken ?s) (us_ResourceURI ?s) = (Inr ?t, [?rq])"
    by (simp add: RefreshAccessToken_def upstream_ok_def decode_ok_def)
  have a: "fst (GetOrRefreshUpstreamToken upstream_ok decode_ok 0 1 ?st ''up'') = Inr ''new-token''"
    using C4_get_or_refresh [of 0 ?s ?st "''up''" upstream_ok decode_ok 1 ?t "[?rq]"] n f l r
    by simp
  have nb: "\<not> NeedsRefresh 0 ?sb"
    using C4_get_or_refresh [of 0 ?sb ?stb "''up''" upstream_ok decode_ok 1 ?t "[?rq]", THEN conjunct1]
    by (simp add: session_up_def minute_def second_def)
  have fb: "cs_fault ?stb = None" "cs_next ?stb = ?stb"
    by (simp_all add: cs_fault_def cs_next_def)
  have lb: "List.find (\<lambda>r. us_McpServerName r = ''up'') (cs_sessions ?stb) = Some ?sb"
    by (simp add: session_up_def)
  have b: "GetOrRefreshUpstreamToken upstream_ok decode_ok 0 1 ?stb ''up''
       = (Inr ''stored-token'', ?stb, [])"
    using C4_get_or_refresh [of 0 ?sb ?stb "''up''" upstream_ok decode_ok 1 ?t "[?rq]"] nb fb lb
    by (simp add: session_up_def)
  have fe: "cs_fault ?ste = None" "cs_next ?ste = ?ste"
    by (simp_all add: cs_fault_def cs_next_def)
  have c: "GetOrRefreshUpstreamToken upstream_ok decode_ok 0 1 ?ste ''up''
       = (Inl (Err ''no OAuth session found for server up''), ?ste, [])"
    using C4_get_or_refresh [of 0 ?s ?ste "''up''" upstream_ok decode_ok 1 ?t "[?rq]"] fe
    by simp
  from n a b c show ?thesis by simp
qed

text \<open>
  The claim as stated (\<open>needs_refresh\<close> iff the refresh token is non-empty and
  \<open>expires_at - now \<le> 5 min\<close>) fails at the boundary: a session with a refresh token
  that expires exactly five minutes from now does not need refresh, and the supplier
  returns the stored token without contacting the upstream.
\<close>

theorem C4_five_minute_boundary_counterexample:
  "us_RefreshToken (session_up (Some (5 * minute)) ''r1'') \<noteq> ''''
   \<and> us_ExpiresAt (session_up (Some (5 * minute)) ''r1'') = Some (5 * minute)
   \<and> 5 * minute - 0 \<le> 5 * minute
   \<and> \<not> NeedsRefresh 0 (session_up (Some (5 * minute)) ''r1'')
   \<and> GetOrRefreshUpstreamToken upstream_ok decode_ok 0 1
          \<lparr>cs_sessions = [session_up (Some (5 * minute)) ''r1''], cs_faults = []\<rparr> ''up''
       = (Inr ''stored-token'',
          \<lparr>cs_sessions = [session_up (Some (5 * minute)) ''r1''], cs_faults = []\<rparr>, [])"
  by (simp add: GetOrRefreshUpstreamToken_def first_session_def cs_fault_def cs_next_def
        NeedsRefresh_def IsAccessTokenExpired_def session_up_def)

text \<open>
  C10.  A session whose \<open>expires_at\<close> is nil is neither expired nor in need of refresh,
  whatever its refresh token; when it is the stored session of the server, the supplier
  sends no request to the upstream, and (the lookup succeeding) returns the stored access
  token and leaves the stored sessions as they were.
\<close>

theorem C10_nil_expiry_never_refreshes:
  assumes "us_ExpiresAt s = None"
  shows "\<not> IsAccessTokenExpired now s \<and> \<not> NeedsRefresh now s
    \<and> (List.find (\<lambda>r. us_McpServerName r = name) (cs_sessions st) = Some s \<longrightarrow>
         snd (snd (GetOrRefreshUpstreamToken transport decode now now2 st name)) = []
         \<and> cs_sessions (fst (snd (GetOrRefreshUpstreamToken transport decode now now2 st name)))
             = cs_sessions st
         \<and> (cs_fault st = None \<longrightarrow>
              fst (GetOrRefreshUpstreamToken transport decode now now2 st name)
                = Inr (us_AccessToken s)))"
proof -
  have e: "\<not> IsAccessTokenExpired now s"
    using assms by (simp add: IsAccessTokenExpired_def)
  then have n: "\<not> NeedsRefresh now s"
    by (simp add: NeedsRefresh_def)
  have g: "GetOrRefreshUpstreamToken transport decode now now2 st name
             = (case cs_fault st of
                  None \<Rightarrow> (Inr (us_AccessToken s), cs_next st, [])
                | Some err \<Rightarrow>
                    (if err = ErrRecordNotFound
                     then Inl (Err (''no OAuth session found for server '' @ name))
                     else Inl (wrap ''failed to get OAuth session'' err), cs_next st, []))"
    if "List.find (\<lambda>r. us_McpServerName r = name) (cs_sessions st) = Some s"
    using that n
    by (simp add: GetOrRefreshUpstreamToken_def first_session_def split: option.splits)
  show ?thesis
    using e n g by (auto simp: cs_next_def split: option.splits)
qed

theorem C10_nil_expiry_witness:
  "us_ExpiresAt (session_up None ''r1'') = None
   \<and> \<not> NeedsRefresh 0 (session_up None ''r1'')
   \<and> snd (snd (GetOrRefreshUpstreamToken upstream_ok decode_ok 0 1
          \<lparr>cs_sessions = [session_up None ''r1''], cs_faults = []\<rparr> ''up'')) = []
   \<and> fst (GetOrRefreshUpstreamToken upstream_ok decode_ok 0 1
          \<lparr>cs_sessions = [session_up None ''r1''], cs_faults = []\<rparr> ''up'') = Inr ''stored-token''"
proof -
  let ?s = "session_up None ''r1''"
  let ?st = "\<lparr>cs_sessions = [?s], cs_faults = []\<rparr>"
  have h: "us_ExpiresAt ?s = None" by (simp add: session_up_def)
  have l: "List.find (\<lambda>r. us_McpServerName r = ''up'') (cs_sessions ?st) = Some ?s"
    by (simp add: session_up_def)
  have f: "cs_fault ?st = None" by (simp add: cs_fault_def)
  have t: "us_AccessToken ?s = ''stored-token''" by (simp add: session_up_def)
  show ?thesis
    using C10_nil_expiry_never_refreshes [OF h, of 0 "''up''" ?st upstream_ok decode_ok 1] h l f t
    by simp
qed

subsection \<open>Resolution of tool groups\<close>

lemma set_key_set: "set (key_set m k) = insert k (set m)"
  by (auto simp: key_set_def)

lemma distinct_key_set: "distinct m \<Longrightarrow> distinct (key_set m k)"
  by (simp add: key_set_def)

lemma set_set_all: "set (set_all m ks) = set m \<union> set ks"
  by (induction ks arbitrary: m) (auto simp: set_key_set)

lemma distinct_set_all: "distinct m \<Longrightarrow> distinct (set_all m ks)"
  by (induction ks arbitrary: m) (auto simp: distinct_key_set)

lemma set_delete_all: "set (delete_all m ks) = set m - set ks"
  by (induction ks arbitrary: m) auto

lemma distinct_delete_all: "distinct m \<Longrightarrow> distinct (delete_all m ks)"
  by (induction ks arbitrary: m) (auto simp: distinct_removeAll)

lemma add_servers_Inr:
  "add_servers what names m ss = Inr m' \<Longrightarrow>
     (\<forall>s \<in> set ss. \<exists>ns. names s = Inr ns)
     \<and> set m' = set m \<union> (\<Union>s \<in> set ss. server_names names s)
     \<and> (distinct m \<longrightarrow> distinct m')"
proof (induction ss arbitrary: m)
  case Nil
  then show ?case by simp
next
  case (Cons s ss)
  from Cons.prems obtain ns where ns: "names s = Inr ns"
    and rest: "add_servers what names (set_all m ns) ss = Inr m'"
    by (auto split: sum.splits)
  from Cons.IH [OF rest] ns show ?case
    by (auto simp: set_set_all server_names_def distinct_set_all)
qed

lemma add_servers_total:
  "\<forall>s \<in> set ss. \<exists>ns. names s = Inr ns \<Longrightarrow> \<exists>m'. add_servers what names m ss = Inr m'"
  by (induction ss arbitrary: m) auto

lemma tool_names_Inr: "(\<exists>ns. tool_names svc s = Inr ns) = (\<exists>tools. svc s = Inr tools)"
  by (cases "svc s") (simp_all add: tool_names_def)

lemma prompt_names_Inr: "(\<exists>ns. prompt_names svc s = Inr ns) = (\<exists>ps. svc s = Inr ps)"
  by (cases "svc s") (simp_all add: prompt_names_def)

lemma ResolveEffectiveTools_Inr:
  assumes "ResolveEffectiveTools g svc = Inr ts"
  shows "\<exists>inc srv exc. GetTools g = Inr inc \<and> GetServers g = Inr srv \<and> GetExcludedTools g = Inr exc
           \<and> (\<forall>s \<in> set srv. \<exists>tools. svc s = Inr tools)
           \<and> set ts = (set inc \<union> (\<Union>s \<in> set srv. server_names (tool_names svc) s)) - set exc
           \<and> distinct ts"
proof -
  from assms obtain inc srv m exc where
    a: "GetTools g = Inr inc" "GetServers g = Inr srv" "GetExcludedTools g = Inr exc" and
    m: "add_servers ''tools'' (tool_names svc) (set_all [] inc) srv = Inr m" and
    ts: "ts = delete_all m exc"
    by (auto simp: ResolveEffectiveTools_def split: sum.splits)
  from add_servers_Inr [OF m]
  have "\<forall>s \<in> set srv. \<exists>tools. svc s = Inr tools"
    and "set m = set inc \<union> (\<Union>s \<in> set srv. server_names (tool_names svc) s)"
    and "distinct m"
    by (simp_all add: set_set_all distinct_set_all tool_names_Inr)
  with a ts show ?thesis
    by (simp add: set_delete_all distinct_delete_all)
qed

lemma ResolveEffectiveTools_total:
  assumes "GetTools g = Inr inc" "GetServers g = Inr srv" "GetExcludedTools g = Inr exc"
    and "\<forall>s \<in> set srv. \<exists>tools. svc s = Inr tools"
  shows "\<exists>ts. ResolveEffectiveTools g svc = Inr ts"
proof -
  from assms(4) have "\<forall>s \<in> set srv. \<exists>ns. tool_names svc s = Inr ns"
    by (simp add: tool_names_Inr)
  from add_servers_total [OF this]
  obtain m where "add_servers ''tools'' (tool_names svc) (set_all [] inc) srv = Inr m"
    by blast
  with assms(1-3) show ?thesis
    by (simp add: ResolveEffectiveTools_def)
qed

lemma ResolveEffectivePrompts_Inr:
  assumes "ResolveEffectivePrompts g svc = Inr ps"
  shows "\<exists>inc srv exc. GetPrompts g = Inr inc \<and> GetServers g = Inr srv \<and> GetExcludedPrompts g = Inr exc
           \<and> (\<forall>s \<in> set srv. \<exists>rows. svc s = Inr rows)
           \<and> set ps = (set inc \<union> (\<Union>s \<in> set srv. server_names (prompt_names svc) s)) - set exc
           \<and> distinct ps"
proof -
  from assms obtain inc srv m exc where
    a: "GetPrompts g = Inr inc" "GetServers g = Inr srv" "GetExcludedPrompts g = Inr exc" and
    m: "add_servers ''prompts'' (prompt_names svc) (set_all [] inc) srv = Inr m" and
    ps: "ps = delete_all m exc"
    by (auto simp: ResolveEffectivePrompts_def split: sum.splits)
  from add_servers_Inr [OF m]
  have "\<forall>s \<in> set srv. \<exists>rows. svc s = Inr rows"
    and "set m = set inc \<union> (\<Union>s \<in> set srv. server_names (prompt_names svc) s)"
    and "distinct m"
    by (simp_all add: set_set_all distinct_set_all prompt_names_Inr)
  with a ps show ?thesis
    by (simp add: set_delete_all distinct_delete_all)
qed

lemma ResolveEffectivePrompts_total:
  assumes "GetPrompts g = Inr inc" "GetServers g = Inr srv" "GetExcludedPrompts g = Inr exc"
    and "\<forall>s \<in> set srv. \<exists>rows. svc s = Inr rows"
  shows "\<exists>ps. ResolveEffectivePrompts g svc = Inr ps"
proof -
  from assms(4) have "\<forall>s \<in> set srv. \<exists>ns. prompt_names svc s = Inr ns"
    by (simp add: prompt_names_Inr)
  from add_servers_total [OF this]
  obtain m where "add_servers ''prompts'' (prompt_names svc) (set_all [] inc) srv = Inr m"
    by blast
  with assms(1-3) show ?thesis
    by (simp add: ResolveEffectivePrompts_def)
qed

text \<open>
  C8.  Whenever a tool group resolves (its three columns decode and every included
  server's lookup succeeds, and only then), the resolved effective tool set is exactly
  \<open>(included_tools \<union> \<Union> server_tools(s), s in included_servers) - excluded_tools\<close>,
  each name once; exclusion is applied last, so a tool both included and excluded is
  not in the result.  Effective prompts obey the same equation over
  \<open>included_prompts\<close>, \<open>included_servers\<close> and \<open>excluded_prompts\<close>.
\<close>

theorem C8_effective_set_equation:
  "(GetTools g = Inr inc \<and> GetServers g = Inr srv \<and> GetExcludedTools g = Inr exc
      \<and> (\<forall>s \<in> set srv. \<exists>tools. listTools s = Inr tools) \<longrightarrow>
      (\<exists>ts. ResolveEffectiveTools g listTools = Inr ts
         \<and> set ts = (set inc \<union> (\<Union>s \<in> set srv. server_names (tool_names listTools) s)) - set exc
         \<and> distinct ts \<and> (\<forall>x \<in> set exc. x \<notin> set ts)))
   \<and> (ResolveEffectiveTools g listTools = Inr ts' \<longrightarrow>
        (\<exists>inc' srv' exc'. GetTools g = Inr inc' \<and> GetServers g = Inr srv'
           \<and> GetExcludedTools g = Inr exc' \<and> (\<forall>s \<in> set srv'. \<exists>tools. listTools s = Inr tools)))
   \<and> (GetPrompts g = Inr pinc \<and> GetServers g = Inr srv \<and> GetExcludedPrompts g = Inr pexc
      \<and> (\<forall>s \<in> set srv. \<exists>rows. listPrompts s = Inr rows) \<longrightarrow>
      (\<exists>ps. ResolveEffectivePrompts g listPrompts = Inr ps
         \<and> set ps = (set pinc \<union> (\<Union>s \<in> set srv. server_names (prompt_names listPrompts) s)) - set pexc
         \<and> distinct ps \<and> (\<forall>x \<in> set pexc. x \<notin> set ps)))
   \<and> (ResolveEffectivePrompts g listPrompts = Inr ps' \<longrightarrow>
        (\<exists>inc' srv' exc'. GetPrompts g = Inr inc' \<and> GetServers g = Inr srv'
           \<and> GetExcludedPrompts g = Inr exc' \<and> (\<forall>s \<in> set srv'. \<exists>rows. listPrompts s = Inr rows)))"
proof (intro conjI impI)
  assume a: "GetTools g = Inr inc \<and> GetServers g = Inr srv \<and> GetExcludedTools g = Inr exc
      \<and> (\<forall>s \<in> set srv. \<exists>tools. listTools s = Inr tools)"
  then obtain ts where ts: "ResolveEffectiveTools g listTools = Inr ts"
    using ResolveEffectiveTools_total [of g inc srv exc listTools] by blast
  from ResolveEffectiveTools_Inr [OF ts] a
  have "set ts = (set inc \<union> (\<Union>s \<in> set srv. server_names (tool_names listTools) s)) - set exc"
    and "distinct ts"
    by auto
  with ts show "\<exists>ts. ResolveEffectiveTools g listTools = Inr ts
         \<and> set ts = (set inc \<union> (\<Union>s \<in> set srv. server_names (tool_names listTools) s)) - set exc
         \<and> distinct ts \<and> (\<forall>x \<in> set exc. x \<notin> set ts)"
    by auto
next
  assume "ResolveEffectiveTools g listTools = Inr ts'"
  from ResolveEffectiveTools_Inr [OF this]
  show "\<exists>inc' srv' exc'. GetTools g = Inr inc' \<and> GetServers g = Inr srv'
           \<and> GetExcludedTools g = Inr exc' \<and> (\<forall>s \<in> set srv'. \<exists>tools. listTools s = Inr tools)"
    by blast
next
  assume a: "GetPrompts g = Inr pinc \<and> GetServers g = Inr srv \<and> GetExcludedPrompts g = Inr pexc
      \<and> (\<forall>s \<in> set srv. \<exists>rows. listPrompts s = Inr rows)"
  then obtain ps where ps: "ResolveEffectivePrompts g listPrompts = Inr ps"
    using ResolveEffectivePrompts_total [of g pinc srv pexc listPrompts] by blast
  from ResolveEffectivePrompts_Inr [OF ps] a
  have "set ps = (set pinc \<union> (\<Union>s \<in> set srv. server_names (prompt_names listPrompts) s)) - set pexc"
    and "distinct ps"
    by auto
  with ps show "\<exists>ps. ResolveEffectivePrompts g listPrompts = Inr ps
         \<and> set ps = (set pinc \<union> (\<Union>s \<in> set srv. server_names (prompt_names listPrompts) s)) - set pexc
         \<and> distinct ps \<and> (\<forall>x \<in> set pexc. x \<notin> set ps)"
    by auto
next
  assume "ResolveEffectivePrompts g listPrompts = Inr ps'"
  from ResolveEffectivePrompts_Inr [OF this]
  show "\<exists>inc' srv' exc'. GetPrompts g = Inr inc' \<and> GetServers g = Inr srv'
           \<and> GetExcludedPrompts g = Inr exc' \<and> (\<forall>s \<in> set srv'. \<exists>rows. listPrompts s = Inr rows)"
    by blast
qed

theorem C8_effective_set_witness:
  "(\<exists>ts. ResolveEffectiveTools example_group registry_tools = Inr ts
        \<and> set ts = {''server1__tool1'', ''server2__tool1''})
   \<and> (\<exists>ps. ResolveEffectivePrompts example_group registry_prompts = Inr ps
        \<and> set ps = {''server1__prompt1'', ''server2__prompt1''})"
proof -
  let ?inc = "[''server1__tool1'', ''server1__tool2'']"
  let ?srv = "[''server2'']"
  let ?exc = "[''server1__tool2'', ''server2__tool2'']"
  let ?pinc = "[''server1__prompt1'']"
  note inst = C8_effective_set_equation [of example_group ?inc ?srv ?exc registry_tools
      "[]" ?pinc "[]" registry_prompts "[]"]
  have g: "GetTools example_group = Inr ?inc" "GetServers example_group = Inr ?srv"
    "GetExcludedTools example_group = Inr ?exc" "GetPrompts example_group = Inr ?pinc"
    "GetExcludedPrompts example_group = Inr []"
    by (simp_all add: example_group_def GetTools_def GetServers_def GetExcludedTools_def
          GetPrompts_def GetExcludedPrompts_def)
  have s: "\<forall>s \<in> set ?srv. \<exists>tools. registry_tools s = Inr tools"
    "\<forall>s \<in> set ?srv. \<exists>rows. registry_prompts s = Inr rows"
    by (simp_all add: registry_tools_def registry_prompts_def)
  have n: "server_names (tool_names registry_tools) ''server2'' = {''server2__tool1'', ''server2__tool2''}"
    "server_names (prompt_names registry_prompts) ''server2'' = {''server2__prompt1''}"
    by (simp_all add: server_names_def tool_names_def prompt_names_def registry_tools_def
          registry_prompts_def)
  from inst [THEN conjunct1] g s(1)
  obtain ts where "ResolveEffectiveTools example_group registry_tools = Inr ts"
    and "set ts = (set ?inc \<union> (\<Union>s \<in> set ?srv. server_names (tool_names registry_tools) s)) - set ?exc"
    by blast
  then have a: "\<exists>ts. ResolveEffectiveTools example_group registry_tools = Inr ts
        \<and> set ts = {''server1__tool1'', ''server2__tool1''}"
    using n(1) by auto
  from inst [THEN conjunct2, THEN conjunct2, THEN conjunct1] g s(2)
  obtain ps where "ResolveEffectivePrompts example_group registry_prompts = Inr ps"
    and "set ps = (set ?pinc \<union> (\<Union>s \<in> set ?srv. server_names (prompt_names registry_prompts) s)) - set []"
    by blast
  then have b: "\<exists>ps. ResolveEffectivePrompts example_group registry_prompts = Inr ps
        \<and> set ps = {''server1__prompt1'', ''server2__prompt1''}"
    using n(2) by auto
  from a b show ?thesis by simp
qed

subsection \<open>Tool access\<close>

lemma first_hit_Cons:
  "(\<exists>i < length (x # xs). P ((x # xs) ! i) \<and> (\<forall>j < i. \<not> Q ((x # xs) ! j)))
     \<longleftrightarrow> P x \<or> (\<not> Q x \<and> (\<exists>i < length xs. P (xs ! i) \<and> (\<forall>j < i. \<not> Q (xs ! j))))"
  (is "?L \<longleftrightarrow> ?R")
proof
  assume ?L
  then obtain i where i: "i < length (x # xs)" "P ((x # xs) ! i)"
    "\<forall>j < i. \<not> Q ((x # xs) ! j)"
    by blast
  show ?R
  proof (cases i)
    case 0
    with i show ?thesis by simp
  next
    case (Suc k)
    with i have "k < length xs" "P (xs ! k)" by simp_all
    moreover from i(3) Suc have "\<not> Q x" by force
    moreover have "\<forall>j < k. \<not> Q (xs ! j)"
    proof (intro allI impI)
      fix j assume "j < k"
      with Suc have "Suc j < i" by simp
      with i(3) have "\<not> Q ((x # xs) ! Suc j)" by blast
      then show "\<not> Q (xs ! j)" by simp
    qed
    ultimately show ?thesis by blast
  qed
next
  assume r: ?R
  show ?L
  proof (cases "P x")
    case True
    then have "0 < length (x # xs) \<and> P ((x # xs) ! 0) \<and> (\<forall>j < 0. \<not> Q ((x # xs) ! j))"
      by simp
    then show ?thesis by blast
  next
    case False
    with r obtain k where k: "\<not> Q x" "k < length xs" "P (xs ! k)" "\<forall>j < k. \<not> Q (xs ! j)"
      by blast
    have "\<forall>j < Suc k. \<not> Q ((x # xs) ! j)"
    proof (intro allI impI)
      fix j assume "j < Suc k"
      with k(1,4) show "\<not> Q ((x # xs) ! j)" by (cases j) simp_all
    qed
    with k have "Suc k < length (x # xs) \<and> P ((x # xs) ! Suc k)
        \<and> (\<forall>j < Suc k. \<not> Q ((x # xs) ! j))"
      by simp
    then show ?thesis by blast
  qed
qed

lemma toolExists_True_iff:
  "toolExistsInAllowedGroups n gs checker resolver = Inr True \<longleftrightarrow>
     (\<exists>i < length gs. group_contains checker resolver n (gs ! i)
        \<and> (\<forall>j < i. \<not> group_unresolvable checker resolver (gs ! j)))"
proof (induction gs)
  case Nil
  then show ?case by simp
next
  case (Cons g gs)
  show ?case
    unfolding first_hit_Cons
    using Cons.IH
    by (auto simp: group_contains_def group_unresolvable_def split: sum.splits)
qed

lemma toolExists_all_resolve:
  "\<forall>g \<in> set gs. \<not> group_unresolvable checker resolver g \<Longrightarrow>
     toolExistsInAllowedGroups n gs checker resolver
       = Inr (\<exists>g \<in> set gs. group_contains checker resolver n g)"
  by (induction gs) (auto simp: group_contains_def group_unresolvable_def split: sum.splits)

lemma splitLoop_ok:
  "splitLoop name i = (srv, rest, True) \<Longrightarrow>
     \<exists>k. i \<le> k \<and> k + 2 \<le> length name \<and> srv = take k name \<and> rest = drop (k + 2) name
        \<and> take 2 (drop k name) = ''__''
        \<and> (\<forall>j. i \<le> j \<and> j < k \<longrightarrow> take 2 (drop j name) \<noteq> ''__'')"
proof (induction name i rule: splitLoop.induct)
  case (1 name i)
  show ?case
  proof (cases "int i < int (length name) - 1")
    case False
    with "1.prems" show ?thesis by simp
  next
    case True
    show ?thesis
    proof (cases "take 2 (drop i name) = ''__''")
      case t: True
      with True "1.prems" have "srv = take i name" "rest = drop (i + 2) name" by simp_all
      with t True show ?thesis by (intro exI [of _ i]) auto
    next
      case f: False
      with True "1.prems" have "splitLoop name (i + 1) = (srv, rest, True)" by simp
      from "1.IH" [OF True f this] obtain k where
        k: "i + 1 \<le> k" "k + 2 \<le> length name" "srv = take k name" "rest = drop (k + 2) name"
        "take 2 (drop k name) = ''__''"
        "\<forall>j. i + 1 \<le> j \<and> j < k \<longrightarrow> take 2 (drop j name) \<noteq> ''__''"
        by blast
      have "\<forall>j. i \<le> j \<and> j < k \<longrightarrow> take 2 (drop j name) \<noteq> ''__''"
      proof (intro allI impI)
        fix j assume j: "i \<le> j \<and> j < k"
        show "take 2 (drop j name) \<noteq> ''__''"
        proof (cases "j = i")
          case True with f show ?thesis by simp
        next
          case False with j k(6) show ?thesis by simp
        qed
      qed
      with k show ?thesis by (intro exI [of _ k]) auto
    qed
  qed
qed

lemma splitLoop_finds:
  "i \<le> p \<Longrightarrow> p + 2 \<le> length name \<Longrightarrow> take 2 (drop p name) = ''__'' \<Longrightarrow>
     snd (snd (splitLoop name i))"
proof (induction name i rule: splitLoop.induct)
  case (1 name i)
  from "1.prems" have lt: "int i < int (length name) - 1" by simp
  show ?case
  proof (cases "take 2 (drop i name) = ''__''")
    case True
    with lt show ?thesis by simp
  next
    case False
    with "1.prems" have "i \<noteq> p" by auto
    with "1.prems" have "i + 1 \<le> p" by simp
    from "1.IH" [OF lt False this "1.prems"(2,3)] lt False show ?thesis by simp
  qed
qed

lemma take_sep_drop:
  "take 2 (drop k xs) = d \<Longrightarrow> take k xs @ d @ drop (k + 2) xs = xs"
  by (metis append_take_drop_id drop_drop add.commute)

lemma sep_first_char:
  assumes "take 2 (drop k xs) = ''__''" and "k < length xs"
  shows "xs ! k = CHR ''_''"
proof -
  have "take 2 (drop k xs) ! 0 = drop k xs ! 0" by simp
  also have "\<dots> = xs ! k" using assms(2) by simp
  finally show ?thesis using assms(1) by simp
qed

lemma split_canonical:
  "\<exists>srv rest. splitServerToolName (s @ ''__'' @ t) = (srv, rest, True)
      \<and> srv @ ''__'' @ rest = s @ ''__'' @ t \<and> length srv \<le> length s
      \<and> (CHR ''_'' \<notin> set s \<longrightarrow> srv = s)"
proof -
  define name where "name = s @ ''__'' @ t"
  have occ: "take 2 (drop (length s) name) = ''__''" by (simp add: name_def)
  have ln: "length s + 2 \<le> length name" by (simp add: name_def)
  have "snd (snd (splitLoop name 0))"
    using occ ln by (intro splitLoop_finds [of 0 "length s"]) simp_all
  then obtain srv rest where r: "splitLoop name 0 = (srv, rest, True)"
    by (cases "splitLoop name 0") auto
  from splitLoop_ok [OF r] obtain k where
    k: "k + 2 \<le> length name" "srv = take k name" "rest = drop (k + 2) name"
    "take 2 (drop k name) = ''__''"
    "\<forall>j. 0 \<le> j \<and> j < k \<longrightarrow> take 2 (drop j name) \<noteq> ''__''"
    by blast
  have kle: "k \<le> length s"
  proof (rule ccontr)
    assume "\<not> k \<le> length s"
    then have "length s < k" by simp
    with k(5) occ show False by blast
  qed
  have cat: "srv @ ''__'' @ rest = name"
    using take_sep_drop [OF k(4)] k(2,3) by simp
  have srv: "srv = take k s" using k(2) kle by (simp add: name_def)
  then have len: "length srv \<le> length s" by simp
  have u: "srv = s" if "CHR ''_'' \<notin> set s"
  proof (rule ccontr)
    assume ne: "srv \<noteq> s"
    with srv kle have lt: "k < length s" by (cases "k = length s") auto
    with k(1) have "name ! k = CHR ''_''" by (intro sep_first_char [OF k(4)]) simp
    moreover from lt have "name ! k = s ! k" by (simp add: name_def nth_append)
    ultimately have "s ! k = CHR ''_''" by simp
    with lt that show False by (metis nth_mem)
  qed
  from r cat len u show ?thesis
    by (auto simp: splitServerToolName_def name_def)
qed

text \<open>
  C1 (as the code has it).  For a client whose \<open>allowed_tool_groups\<close> decode to a
  non-empty list, access to a tool name is granted iff some listed group exists and has
  the name in its effective tool set, and no existing group listed before it fails to
  resolve (a resolution failure ends the check with an error); when every listed existing
  group resolves, access is granted iff some listed existing group contains the name.
  Missing groups are skipped, and the allow list is not consulted: replacing it leaves the
  result unchanged.  For a client whose \<open>allowed_tool_groups\<close> decode to the empty list,
  a canonical name \<open>s__t\<close> always parses (at the first \<open>__\<close>; the parsed server is
  \<open>s\<close> when \<open>s\<close> has no underscore), and access is granted iff the parsed server name
  is in the decoded allow list.
\<close>

theorem C1_tool_access:
  assumes "GetAllowedToolGroups c = Inr gs"
  shows "(gs \<noteq> [] \<longrightarrow>
           (CheckHasToolAccess c n checker resolver = Inr True \<longleftrightarrow>
              (\<exists>i < length gs. group_contains checker resolver n (gs ! i)
                 \<and> (\<forall>j < i. \<not> group_unresolvable checker resolver (gs ! j))))
         \<and> ((\<forall>g \<in> set gs. \<not> group_unresolvable checker resolver g) \<longrightarrow>
              CheckHasToolAccess c n checker resolver
                = Inr (\<exists>g \<in> set gs. group_contains checker resolver n g))
         \<and> CheckHasToolAccess (c\<lparr>mc_AllowList := a\<rparr>) n checker resolver
              = CheckHasToolAccess c n checker resolver)
       \<and> (gs = [] \<longrightarrow>
           (\<exists>srv rest. splitServerToolName (s @ ''__'' @ t) = (srv, rest, True)
              \<and> srv @ ''__'' @ rest = s @ ''__'' @ t
              \<and> (CHR ''_'' \<notin> set s \<longrightarrow> srv = s)
              \<and> CheckHasToolAccess c (s @ ''__'' @ t) checker resolver
                   = Inr (CheckHasServerAccess c srv))
         \<and> (CheckHasServerAccess c x \<longleftrightarrow> (\<exists>xs. mc_AllowList c = JStrings xs \<and> x \<in> set xs)))"
proof (intro conjI impI)
  assume ne: "gs \<noteq> []"
  with assms have g: "CheckHasToolAccess c n checker resolver
      = toolExistsInAllowedGroups n gs checker resolver"
    by (simp add: CheckHasToolAccess_def)
  show "CheckHasToolAccess c n checker resolver = Inr True \<longleftrightarrow>
          (\<exists>i < length gs. group_contains checker resolver n (gs ! i)
             \<and> (\<forall>j < i. \<not> group_unresolvable checker resolver (gs ! j)))"
    unfolding g by (rule toolExists_True_iff)
  show "CheckHasToolAccess c n checker resolver
          = Inr (\<exists>g \<in> set gs. group_contains checker resolver n g)"
    if "\<forall>g \<in> set gs. \<not> group_unresolvable checker resolver g"
    unfolding g using that by (rule toolExists_all_resolve)
  from assms have "GetAllowedToolGroups (c\<lparr>mc_AllowList := a\<rparr>) = Inr gs"
    by (simp add: GetAllowedToolGroups_def)
  with ne g show "CheckHasToolAccess (c\<lparr>mc_AllowList := a\<rparr>) n checker resolver
      = CheckHasToolAccess c n checker resolver"
    by (simp add: CheckHasToolAccess_def)
next
  assume e: "gs = []"
  from split_canonical [of s t] obtain srv rest where
    sp: "splitServerToolName (s @ ''__'' @ t) = (srv, rest, True)"
    "srv @ ''__'' @ rest = s @ ''__'' @ t" "CHR ''_'' \<notin> set s \<longrightarrow> srv = s"
    by blast
  from assms e sp(1) have "CheckHasToolAccess c (s @ ''__'' @ t) checker resolver
      = Inr (CheckHasServerAccess c srv)"
    by (simp add: CheckHasToolAccess_def)
  with sp show "\<exists>srv rest. splitServerToolName (s @ ''__'' @ t) = (srv, rest, True)
              \<and> srv @ ''__'' @ rest = s @ ''__'' @ t
              \<and> (CHR ''_'' \<notin> set s \<longrightarrow> srv = s)
              \<and> CheckHasToolAccess c (s @ ''__'' @ t) checker resolver
                   = Inr (CheckHasServerAccess c srv)"
    by blast
next
  show "CheckHasServerAccess c x \<longleftrightarrow> (\<exists>xs. mc_AllowList c = JStrings xs \<and> x \<in> set xs)"
    by (auto simp: CheckHasServerAccess_def split: json_strings.splits)
qed

theorem C1_tool_access_witness:
  "CheckHasToolAccess (acl_client [''s2''] [''g1'']) ''s1__t'' acl_checker acl_resolver = Inr True
   \<and> CheckHasToolAccess (acl_client [''s2''] [''g1'']) ''s2__t'' acl_checker acl_resolver = Inr False
   \<and> CheckHasToolAccess (acl_client [''s2''] [''missing'', ''g1'']) ''s1__t'' acl_checker acl_resolver
       = Inr True
   \<and> CheckHasToolAccess (acl_client [''s2''] []) ''s2__t'' acl_checker acl_resolver = Inr True
   \<and> CheckHasToolAccess (acl_client [''s2''] []) ''s1__t'' acl_checker acl_resolver = Inr False"
proof -
  have r: "ResolveEffectiveTools group_g1 registry_tools = Inr [''s1__t'']"
    by (simp add: ResolveEffectiveTools_def GetTools_def GetServers_def GetExcludedTools_def
          group_g1_def key_set_def)
  have gc: "group_contains acl_checker acl_resolver n ''g1'' = (n = ''s1__t'')"
    "\<not> group_contains acl_checker acl_resolver n ''missing''"
    "\<not> group_unresolvable acl_checker acl_resolver ''g1''"
    "\<not> group_unresolvable acl_checker acl_resolver ''missing''" for n
    using r by (auto simp: group_contains_def group_unresolvable_def acl_checker_def acl_resolver_def)
  have ga: "GetAllowedToolGroups (acl_client al gs) = Inr gs" for al gs
    by (simp add: GetAllowedToolGroups_def acl_client_def)
  have a: "CheckHasToolAccess (acl_client [''s2''] [''g1'']) n acl_checker acl_resolver
      = Inr (n = ''s1__t'')" for n
    using C1_tool_access [of "acl_client [''s2''] [''g1'']" "[''g1'']" n acl_checker acl_resolver JNil
        "''s2''" "''t''" "''s2''", OF ga] gc
    by simp
  have b: "CheckHasToolAccess (acl_client [''s2''] [''missing'', ''g1'']) ''s1__t'' acl_checker acl_resolver
      = Inr True"
    using C1_tool_access [of "acl_client [''s2''] [''missing'', ''g1'']" "[''missing'', ''g1'']" "''s1__t''"
        acl_checker acl_resolver JNil "''s2''" "''t''" "''s2''", OF ga] gc
    by simp
  have sa: "CheckHasServerAccess (acl_client [''s2''] []) x = (x = ''s2'')" for x
    using C1_tool_access [of "acl_client [''s2''] []" "[]" "''n''" acl_checker acl_resolver JNil
        "''s2''" "''t''" x, OF ga]
    by (simp add: acl_client_def)
  have c: "CheckHasToolAccess (acl_client [''s2''] []) (sv @ ''__'' @ ''t'') acl_checker acl_resolver
      = Inr (sv = ''s2'')" if "CHR ''_'' \<notin> set sv" for sv
    using C1_tool_access [of "acl_client [''s2''] []" "[]" "''n''" acl_checker acl_resolver JNil
        sv "''t''" "''s2''", OF ga] that sa
    by auto
  from a [of "''s1__t''"] a [of "''s2__t''"] b c [of "''s2''"] c [of "''s1''"]
  show ?thesis by simp
qed

text \<open>
  The claim as stated fails when a listed group ahead of the match cannot be resolved:
  \<open>s1__t\<close> is in the effective tool set of the listed, existing group \<open>g1\<close>, but the
  group \<open>gdown\<close> listed before it includes a server whose tool lookup fails, and the
  check ends with that error instead of granting access.
\<close>

theorem C1_unresolvable_group_counterexample:
  "GetAllowedToolGroups (acl_client [] [''gdown'', ''g1'']) = Inr [''gdown'', ''g1'']
   \<and> acl_checker ''g1'' = Inr group_g1
   \<and> ResolveEffectiveTools group_g1 (ListToolsByServer acl_resolver) = Inr [''s1__t'']
   \<and> CheckHasToolAccess (acl_client [] [''gdown'', ''g1'']) ''s1__t'' acl_checker acl_resolver
       = Inl (Err ''failed to resolve tools for group gdown: failed to get tools for server down: connection refused'')"
  by (simp add: CheckHasToolAccess_def GetAllowedToolGroups_def acl_client_def acl_checker_def
        acl_resolver_def ResolveEffectiveTools_def GetTools_def GetServers_def
        GetExcludedTools_def group_g1_def group_down_def key_set_def tool_names_def
        registry_tools_def wrap_def)

subsection \<open>Audit redaction\<close>

lemma maps_redacted_filter: "maps_redacted (filterSensitiveData m)"
  by (induction m rule: filterSensitiveData.induct) (auto split: gval.splits)

lemma leak_free_filter: "hides_no_key m \<Longrightarrow> leak_free_fields (filterSensitiveData m)"
  by (induction m rule: filterSensitiveData.induct) (auto split: gval.splits)

lemma marshal_leak_free:
  "leak_free v \<Longrightarrow> marshal v = Some d \<Longrightarrow> json_leak_free d"
  "leak_free_list vs \<Longrightarrow> marshal_list vs = Some ds \<Longrightarrow> json_leak_free_list ds"
  "leak_free_fields kvs \<Longrightarrow> marshal_fields kvs = Some ms \<Longrightarrow> json_leak_free_members ms"
proof (induction v and vs and kvs arbitrary: d and ds and ms rule: marshal_marshal_list_marshal_fields.induct)
  case (12 k v kvs)
  then show ?case by (auto split: option.splits if_splits)
qed (auto split: option.splits)

lemma marshalChanges_leak_free:
  assumes "hides_no_key m"
  shows "json_leak_free (marshalChanges m)"
proof (cases "marshal (GMap (filterSensitiveData m))")
  case None
  then show ?thesis by (simp add: marshalChanges_def)
next
  case (Some d)
  from leak_free_filter [OF assms] have "leak_free (GMap (filterSensitiveData m))" by simp
  from marshal_leak_free(1) [OF this Some] have "json_leak_free d" .
  moreover from Some have "marshalChanges m = d"
    unfolding marshalChanges_def Let_def by (simp only: option.case)
  ultimately show ?thesis by simp
qed

lemma logAsync_rows:
  "au_rows (logAsync ctx log st) = au_rows st
   \<or> (\<exists>row. au_rows (logAsync ctx log st) = au_rows st @ [row] \<and> al_Changes row = al_Changes log)"
  by (auto simp: logAsync_def Let_def split: list.splits option.splits)

lemma logAsync_new_rows:
  "row \<in> set (au_rows (logAsync ctx log st)) \<Longrightarrow> row \<notin> set (au_rows st)
   \<Longrightarrow> al_Changes row = al_Changes log"
  using logAsync_rows [of ctx log st] by auto

text \<open>
  C9 (as the code has it).  For every payload passed to log_create, log_update,
  log_enable or log_disable, every row the call stores carries as its changes document
  the JSON of the filtered payload (or \<^verbatim>\<open>{}\<close> when marshalling fails), and in the
  filtered payload every entry under a sensitive key, at the top level and inside
  string-keyed maps nested through maps, is the string \<^verbatim>\<open>[REDACTED]\<close>.  Values that
  are not string-keyed maps (list elements, structs) are stored unfiltered; when none of
  them holds a sensitive key, no sensitive key of the stored document holds anything but
  \<^verbatim>\<open>[REDACTED]\<close>.
\<close>

theorem C9_redaction_through_maps:
  "maps_redacted (filterSensitiveData payload)
   \<and> marshalChanges payload
       = (case marshal (GMap (filterSensitiveData payload)) of None \<Rightarrow> JObject [] | Some d \<Rightarrow> d)
   \<and> (hides_no_key payload \<longrightarrow> json_leak_free (marshalChanges payload))
   \<and> (\<forall>row \<in> set (au_rows (LogUpdate ctx et ei en payload st)) - set (au_rows st).
         al_Changes row = marshalChanges payload)
   \<and> (\<forall>row \<in> set (au_rows (LogEnable ctx et ei en payload st)) - set (au_rows st).
         al_Changes row = marshalChanges payload)
   \<and> (\<forall>row \<in> set (au_rows (LogDisable ctx et ei en payload st)) - set (au_rows st).
         al_Changes row = marshalChanges payload)
   \<and> (\<forall>row \<in> set (au_rows (LogCreate ctx et ei en data st)) - set (au_rows st).
         al_Changes row = marshalChanges [(''created'', data)])"
proof (intro conjI impI ballI)
  show "maps_redacted (filterSensitiveData payload)"
    by (rule maps_redacted_filter)
  show "marshalChanges payload
       = (case marshal (GMap (filterSensitiveData payload)) of None \<Rightarrow> JObject [] | Some d \<Rightarrow> d)"
    by (simp add: marshalChanges_def)
  show "json_leak_free (marshalChanges payload)" if "hides_no_key payload"
    using that by (rule marshalChanges_leak_free)
next
  fix row assume "row \<in> set (au_rows (LogUpdate ctx et ei en payload st)) - set (au_rows st)"
  then show "al_Changes row = marshalChanges payload"
    using logAsync_new_rows [of row ctx "new_log et ei en ''UPDATE'' (marshalChanges payload)" st]
    by (simp add: LogUpdate_def new_log_def)
next
  fix row assume "row \<in> set (au_rows (LogEnable ctx et ei en payload st)) - set (au_rows st)"
  then show "al_Changes row = marshalChanges payload"
    using logAsync_new_rows [of row ctx "new_log et ei en ''ENABLE'' (marshalChanges payload)" st]
    by (simp add: LogEnable_def new_log_def)
next
  fix row assume "row \<in> set (au_rows (LogDisable ctx et ei en payload st)) - set (au_rows st)"
  then show "al_Changes row = marshalChanges payload"
    using logAsync_new_rows [of row ctx "new_log et ei en ''DISABLE'' (marshalChanges payload)" st]
    by (simp add: LogDisable_def new_log_def)
next
  fix row assume "row \<in> set (au_rows (LogCreate ctx et ei en data st)) - set (au_rows st)"
  then show "al_Changes row = marshalChanges [(''created'', data)]"
    using logAsync_new_rows [of row ctx
        "new_log et ei en ''CREATE'' (marshalChanges [(''created'', data)])" st]
    by (simp add: LogCreate_def new_log_def)
qed

theorem C9_redaction_witness:
  "hides_no_key nested_payload
   \<and> json_leak_free (marshalChanges nested_payload)
   \<and> marshalChanges nested_payload
       = JObject [(''config'', JObject [(''name'', JString ''test''),
                                        (''access_token'', JString ''[REDACTED]'')]),
                  (''password'', JString ''[REDACTED]''),
                  (''tools'', JArray [JString ''a'', JString ''b''])]
   \<and> map al_Changes (au_rows (LogUpdate None ''tool_group'' ''g'' ''g'' nested_payload
          \<lparr>au_rows = [], au_faults = []\<rparr>)) = [marshalChanges nested_payload]"
proof -
  let ?st = "\<lparr>au_rows = [], au_faults = []\<rparr>"
  note inst = C9_redaction_through_maps [of nested_payload None "''tool_group''" "''g''" "''g''"
      ?st GNil]
  have h: "hides_no_key nested_payload"
    by (simp add: nested_payload_def sensitiveFields_def)
  with inst have a: "json_leak_free (marshalChanges nested_payload)" by blast
  have f: "filterSensitiveData nested_payload
      = [(''config'', GMap [(''name'', GString ''test''), (''access_token'', GString ''[REDACTED]'')]),
         (''password'', GString ''[REDACTED]''),
         (''tools'', GList [GString ''a'', GString ''b''])]"
    by (simp add: nested_payload_def sensitiveFields_def)
  from inst have "marshalChanges nested_payload
       = (case marshal (GMap (filterSensitiveData nested_payload)) of
            None \<Rightarrow> JObject [] | Some d \<Rightarrow> d)"
    by blast
  then have b: "marshalChanges nested_payload
       = JObject [(''config'', JObject [(''name'', JString ''test''),
                                        (''access_token'', JString ''[REDACTED]'')]),
                  (''password'', JString ''[REDACTED]''),
                  (''tools'', JArray [JString ''a'', JString ''b''])]"
    by (simp add: f)
  have r: "\<exists>row. au_rows (LogUpdate None ''tool_group'' ''g'' ''g'' nested_payload ?st) = [row]"
    by (simp add: LogUpdate_def logAsync_def Let_def)
  then obtain row where row: "au_rows (LogUpdate None ''tool_group'' ''g'' ''g'' nested_payload ?st) = [row]"
    by blast
  with inst have "al_Changes row = marshalChanges nested_payload" by simp
  with row have c: "map al_Changes (au_rows (LogUpdate None ''tool_group'' ''g'' ''g'' nested_payload
          ?st)) = [marshalChanges nested_payload]"
    by simp
  from h a b c show ?thesis by simp
qed

text \<open>
  The claim as stated fails for a sensitive key inside a list element: the row stored for
  the payload \<^verbatim>\<open>{"items": [{"password": "hunter2"}]}\<close> holds the password itself.
\<close>

theorem C9_list_element_counterexample:
  "map al_Changes (au_rows (LogUpdate None ''tool_group'' ''g'' ''g'' list_payload
        \<lparr>au_rows = [], au_faults = []\<rparr>))
     = [JObject [(''items'', JArray [JObject [(''password'', JString ''hunter2'')]])]]
   \<and> sensitiveFields ''password''
   \<and> \<not> json_leak_free (JObject [(''items'', JArray [JObject [(''password'', JString ''hunter2'')]])])"
  by (simp add: LogUpdate_def logAsync_def Let_def new_log_def marshalChanges_def list_payload_def
        sensitiveFields_def)

subsection \<open>Token revocation\<close>

lemma exec_log: "is_log (snd (exec q st)) = is_log st @ [q]"
  by (simp add: exec_def)



lemma RevokeRefreshToken_access_tokens:
  "is_access_tokens (snd (RevokeRefreshToken st token)) = is_access_tokens st"
  by (simp add: RevokeRefreshToken_def exec_def split: option.splits)






text \<open>
  Two more behaviours of the handler at concrete requests.  Credentials sent in the form
  body are not read: \<^verbatim>\<open>extractClientCredentials\<close> is called with empty body
  credentials.  And the refresh-token revocation runs only when the access-token statement
  returns an error, which the update of no row does not: a presented refresh token stays
  unrevoked behind a 200.
\<close>

lemma revoke_ignores_body_credentials:
  "fst (OAuthRevokeHandler b64decode_table bcrypt_table
          (issuer_with [] [issued_token ''tok-1''] [] [])
          ((revoke_request ''tok-1'' '''')
             \<lparr>gr_form := [(''token'', ''tok-1''), (''client_id'', ''cid''),
                           (''client_secret'', ''secret'')]\<rparr>))
     = RespJSON 400 [(''error'', ''invalid_client''),
                     (''error_description'', ''Client authentication required'')]"
  by code_simp

lemma revoke_leaves_refresh_token:
  "OAuthRevokeHandler b64decode_table bcrypt_table
      ((issuer_with [] [] [] [])
         \<lparr>is_refresh_tokens :=
            [\<lparr>rt_ID = 1, rt_RefreshToken = ''rt-1'', rt_ClientID = ''cid'', rt_UserID = 7,
              rt_Scope = ''mcp:read'', rt_ExpiresAt = 30 * 24 * hour, rt_Revoked = False,
              rt_RotationCount = 0\<rparr>]\<rparr>)
      (revoke_request ''rt-1'' ''Basic Y2lkOnNlY3JldA=='')
     = (RespStatus 200,
        (issuer_with [] [] [] [])
          \<lparr>is_refresh_tokens :=
             [\<lparr>rt_ID = 1, rt_RefreshToken = ''rt-1'', rt_ClientID = ''cid'', rt_UserID = 7,
               rt_Scope = ''mcp:read'', rt_ExpiresAt = 30 * 24 * hour, rt_Revoked = False,
               rt_RotationCount = 0\<rparr>],
           is_log := [SelectClient ''cid'', UpdateAccessTokenRevoked ''rt-1'']\<rparr>)"
  by code_simp

subsection \<open>Single use of authorization codes\<close>

lemma used_step_refl: "used_step r r"
  by (simp add: used_step_def)

lemma used_step_mark: "used_step r (mark_used code r)"
  by (cases "code_Code r = code") (simp_all add: used_step_def mark_used_def)

lemma used_step_same: "list_all2 used_step rows rows"
  by (induction rows) (simp_all add: used_step_refl)

lemma used_step_map: "list_all2 used_step rows (map (mark_used code) rows)"
  by (induction rows) (simp_all add: used_step_mark)

lemma marked_rows:
  assumes "r \<in> set (map (mark_used code) rows)" and "code_Code r = code"
  shows "code_Used r"
proof -
  from assms(1) have "r \<in> mark_used code ` set rows" by (simp only: set_map)
  then obtain old where r: "r = mark_used code old" by (rule imageE)
  show ?thesis
  proof (cases "code_Code old = code")
    case True
    with r show ?thesis by (simp add: mark_used_def)
  next
    case False
    with r assms(2) show ?thesis by (simp add: mark_used_def)
  qed
qed

lemma exec_frame:
  "is_codes (snd (exec q st)) = is_codes st"
  "is_access_tokens (snd (exec q st)) = is_access_tokens st"
  "is_refresh_tokens (snd (exec q st)) = is_refresh_tokens st"
  "is_clients (snd (exec q st)) = is_clients st"
  by (simp_all add: exec_def)

lemma GetAuthorizationCode_frame:
  "is_codes (snd (GetAuthorizationCode st code)) = is_codes st"
  "is_access_tokens (snd (GetAuthorizationCode st code)) = is_access_tokens st"
  "is_refresh_tokens (snd (GetAuthorizationCode st code)) = is_refresh_tokens st"
  by (simp_all add: GetAuthorizationCode_def exec_def split: option.splits)

lemma GetAuthorizationCode_found:
  assumes "fst (GetAuthorizationCode st code) = Inr (Some a)"
  shows "a \<in> set (is_codes st) \<and> code_Code a = code"
proof -
  from assms have "List.find (\<lambda>c. code_Code c = code) (is_codes st) = Some a"
    by (simp add: GetAuthorizationCode_def exec_def split: option.splits if_splits)
  then show ?thesis
    by (auto simp: find_Some_iff)
qed

lemma GenerateOAuthToken_frame:
  "is_codes (snd (GenerateOAuthToken st)) = is_codes st"
  "is_access_tokens (snd (GenerateOAuthToken st)) = is_access_tokens st"
  "is_refresh_tokens (snd (GenerateOAuthToken st)) = is_refresh_tokens st"
  "is_faults (snd (GenerateOAuthToken st)) = is_faults st"
  by (simp_all add: GenerateOAuthToken_def split: list.splits sum.splits)

lemma IssueRefreshToken_codes:
  "is_codes (snd (IssueRefreshToken st now cid uid scope)) = is_codes st"
proof (cases "GenerateOAuthToken st")
  case (Pair r st1)
  with GenerateOAuthToken_frame(1) [of st] have c: "is_codes st1 = is_codes st" by simp
  show ?thesis
  proof (cases r)
    case (Inl e)
    with Pair c show ?thesis by (simp add: IssueRefreshToken_def)
  next
    case (Inr tok)
    with Pair c show ?thesis
      by (simp add: IssueRefreshToken_def Let_def exec_def split: option.splits)
  qed
qed

lemma IssueAccessToken_codes:
  "is_codes (snd (IssueAccessToken st now cid uid scope aud rid)) = is_codes st"
proof (cases "GenerateOAuthToken st")
  case (Pair r st1)
  with GenerateOAuthToken_frame(1) [of st] have c: "is_codes st1 = is_codes st" by simp
  show ?thesis
  proof (cases r)
    case (Inl e)
    with Pair c show ?thesis by (simp add: IssueAccessToken_def)
  next
    case (Inr tok)
    with Pair c show ?thesis
      by (simp add: IssueAccessToken_def Let_def exec_def split: option.splits)
  qed
qed

lemma MarkAuthorizationCodeUsed_codes:
  "is_codes (snd (MarkAuthorizationCodeUsed st code))
     = (case fault_of st of None \<Rightarrow> map (mark_used code) (is_codes st) | Some err \<Rightarrow> is_codes st)"
  "fst (MarkAuthorizationCodeUsed st code) = fault_of st"
  by (simp_all add: MarkAuthorizationCodeUsed_def exec_def split: option.splits)

lemma authcode_issue_codes:
  "is_codes (snd (authcode_issue now now2 st c client req a))
     = is_codes (snd (MarkAuthorizationCodeUsed st (tk_Code req)))"
proof (cases "MarkAuthorizationCodeUsed st (tk_Code req)")
  case (Pair m st1)
  obtain rr st2 where r: "IssueRefreshToken st1 now (oc_ClientID client) (code_UserID a) (code_Scope a) = (rr, st2)"
    by (cases "IssueRefreshToken st1 now (oc_ClientID client) (code_UserID a) (code_Scope a)")
  with IssueRefreshToken_codes [of st1 now "oc_ClientID client" "code_UserID a" "code_Scope a"]
  have c2: "is_codes st2 = is_codes st1" by simp
  show ?thesis
  proof (cases rr)
    case (Inl e)
    with Pair r c2 show ?thesis by (simp add: authcode_issue_def Let_def)
  next
    case (Inr rt)
    let ?aud = "if tk_Resource req = '''' then getServerURL c else tk_Resource req"
    obtain ra st3 where i: "IssueAccessToken st2 now (oc_ClientID client) (Some (code_UserID a))
        (code_Scope a) ?aud (Some (rt_ID rt)) = (ra, st3)"
      by (cases "IssueAccessToken st2 now (oc_ClientID client) (Some (code_UserID a))
        (code_Scope a) ?aud (Some (rt_ID rt))")
    with IssueAccessToken_codes [of st2 now "oc_ClientID client" "Some (code_UserID a)"
        "code_Scope a" ?aud "Some (rt_ID rt)"]
    have c3: "is_codes st3 = is_codes st2" by simp
    from Pair r Inr i c2 c3 show ?thesis
      by (cases ra) (simp_all add: authcode_issue_def Let_def)
  qed
qed

lemma authcode_checks_frame:
  "is_codes (snd (authcode_checks sha256 now st client req)) = is_codes st"
  "is_access_tokens (snd (authcode_checks sha256 now st client req)) = is_access_tokens st"
  "is_refresh_tokens (snd (authcode_checks sha256 now st client req)) = is_refresh_tokens st"
proof -
  obtain g st1 where g: "GetAuthorizationCode st (tk_Code req) = (g, st1)"
    by (cases "GetAuthorizationCode st (tk_Code req)")
  with GetAuthorizationCode_frame [of st "tk_Code req"]
  have f: "is_codes st1 = is_codes st" "is_access_tokens st1 = is_access_tokens st"
    "is_refresh_tokens st1 = is_refresh_tokens st"
    by simp_all
  have "snd (authcode_checks sha256 now st client req) = st
      \<or> snd (authcode_checks sha256 now st client req) = st1"
    using g by (simp add: authcode_checks_def split: sum.splits option.splits)
  with f show "is_codes (snd (authcode_checks sha256 now st client req)) = is_codes st"
    "is_access_tokens (snd (authcode_checks sha256 now st client req)) = is_access_tokens st"
    "is_refresh_tokens (snd (authcode_checks sha256 now st client req)) = is_refresh_tokens st"
    by auto
qed

lemma handle_codes:
  "is_codes (snd (handleAuthorizationCodeGrant sha256 now now2 st c client req)) = is_codes st
   \<or> is_codes (snd (handleAuthorizationCodeGrant sha256 now now2 st c client req))
       = map (mark_used (tk_Code req)) (is_codes st)"
proof (cases "authcode_checks sha256 now st client req")
  case (Pair checked st1)
  with authcode_checks_frame(1) [of sha256 now st client req]
  have c1: "is_codes st1 = is_codes st" by simp
  show ?thesis
  proof (cases checked)
    case (Inl resp)
    with Pair c1 show ?thesis by (simp add: handleAuthorizationCodeGrant_def)
  next
    case (Inr a)
    with Pair have "is_codes (snd (handleAuthorizationCodeGrant sha256 now now2 st c client req))
        = is_codes (snd (MarkAuthorizationCodeUsed st1 (tk_Code req)))"
      by (simp add: handleAuthorizationCodeGrant_def authcode_issue_codes)
    with c1 show ?thesis
      by (cases "fault_of st1") (simp_all add: MarkAuthorizationCodeUsed_codes)
  qed
qed

lemma handle_used_step:
  "list_all2 used_step (is_codes st)
     (is_codes (snd (handleAuthorizationCodeGrant sha256 now now2 st c client req)))"
  using handle_codes [of sha256 now now2 st c client req]
    used_step_same [of "is_codes st"] used_step_map [of "is_codes st" "tk_Code req"]
  by auto

lemma handle_marks:
  assumes "fst (handleAuthorizationCodeGrant sha256 now now2 st c client req) = RespToken 200 tr"
    and "fault_of (snd (authcode_checks sha256 now st client req)) = None"
    and "r \<in> set (is_codes (snd (handleAuthorizationCodeGrant sha256 now now2 st c client req)))"
    and "code_Code r = tk_Code req"
  shows "code_Used r"
proof (cases "authcode_checks sha256 now st client req")
  case (Pair checked st1)
  show ?thesis
  proof (cases checked)
    case (Inl resp)
    with Pair have "resp = RespToken 200 tr"
      using assms(1) by (simp add: handleAuthorizationCodeGrant_def)
    with Pair Inl show ?thesis
      by (auto simp: authcode_checks_def oauth_error_def
            split: if_splits prod.splits sum.splits option.splits)
  next
    case (Inr a)
    from Pair assms(2) have f: "fault_of st1 = None" by simp
    from Pair Inr have "is_codes (snd (handleAuthorizationCodeGrant sha256 now now2 st c client req))
        = is_codes (snd (MarkAuthorizationCodeUsed st1 (tk_Code req)))"
      by (simp add: handleAuthorizationCodeGrant_def authcode_issue_codes)
    with f have "is_codes (snd (handleAuthorizationCodeGrant sha256 now now2 st c client req))
        = map (mark_used (tk_Code req)) (is_codes st1)"
      by (simp add: MarkAuthorizationCodeUsed_codes)
    with assms(3,4) show ?thesis
      using marked_rows [of r "tk_Code req" "is_codes st1"] by simp
  qed
qed

lemma checks_reject_used:
  assumes "\<forall>r \<in> set (is_codes st). code_Code r = tk_Code req \<longrightarrow> code_Used r"
    and "tk_Code req \<noteq> ''''" "tk_RedirectURI req \<noteq> ''''" "tk_CodeVerifier req \<noteq> ''''"
  shows "\<exists>d. fst (authcode_checks sha256 now st client req) = Inl (oauth_error 400 ''invalid_grant'' d)"
proof (cases "GetAuthorizationCode st (tk_Code req)")
  case (Pair g st1)
  show ?thesis
  proof (cases g)
    case (Inl e)
    with Pair assms(2-4) show ?thesis by (auto simp: authcode_checks_def)
  next
    case (Inr found)
    show ?thesis
    proof (cases found)
      case None
      with Pair Inr assms(2-4) show ?thesis by (auto simp: authcode_checks_def)
    next
      case (Some a)
      with Pair Inr have "fst (GetAuthorizationCode st (tk_Code req)) = Inr (Some a)" by simp
      from GetAuthorizationCode_found [OF this] assms(1) have "code_Used a" by blast
      then have "\<not> code_IsValid now a" by (simp add: code_IsValid_def)
      with Pair Inr Some assms(2-4) show ?thesis by (auto simp: authcode_checks_def)
    qed
  qed
qed

lemma handle_rejects_used:
  assumes "\<forall>r \<in> set (is_codes st). code_Code r = tk_Code req \<longrightarrow> code_Used r"
    and "tk_Code req \<noteq> ''''" "tk_RedirectURI req \<noteq> ''''" "tk_CodeVerifier req \<noteq> ''''"
  shows "(\<exists>d. fst (handleAuthorizationCodeGrant sha256 now now2 st c client req)
              = oauth_error 400 ''invalid_grant'' d)
       \<and> is_access_tokens (snd (handleAuthorizationCodeGrant sha256 now now2 st c client req))
           = is_access_tokens st
       \<and> is_refresh_tokens (snd (handleAuthorizationCodeGrant sha256 now now2 st c client req))
           = is_refresh_tokens st"
proof -
  from checks_reject_used [OF assms, of sha256 now client] obtain d where
    d: "fst (authcode_checks sha256 now st client req) = Inl (oauth_error 400 ''invalid_grant'' d)"
    by blast
  then have h: "handleAuthorizationCodeGrant sha256 now now2 st c client req
      = (oauth_error 400 ''invalid_grant'' d, snd (authcode_checks sha256 now st client req))"
    by (cases "authcode_checks sha256 now st client req")
       (simp add: handleAuthorizationCodeGrant_def)
  show ?thesis
    unfolding h using authcode_checks_frame(2,3) [of sha256 now st client req] by auto
qed

text \<open>
  C3 (as the code has it).  The \<open>used\<close> flag of a stored authorization code is only
  ever set: across an exchange every row of the table is as it was or has \<open>used\<close> set,
  so the flag goes from false to true at most once.  The marking is one unconditional
  \<^verbatim>\<open>UPDATE ... SET used = true WHERE code = ?\<close> issued after the code was read; it
  reports no error when it runs, whatever the flag was.  When an exchange answers with
  tokens and its marking statement ran, every row of that code is used; and in any store
  where every row of a code is used, an exchange of that code fails with
  \<open>invalid_grant\<close> and creates no token.
\<close>

theorem C3_code_single_use_sequential:
  "list_all2 used_step (is_codes st)
     (is_codes (snd (handleAuthorizationCodeGrant sha256 now now2 st c client req)))
   \<and> (fault_of st = None \<longrightarrow>
        fst (MarkAuthorizationCodeUsed st code) = None
        \<and> is_codes (snd (MarkAuthorizationCodeUsed st code)) = map (mark_used code) (is_codes st))
   \<and> (fst (handleAuthorizationCodeGrant sha256 now now2 st c client req) = RespToken 200 tr
        \<and> fault_of (snd (authcode_checks sha256 now st client req)) = None \<longrightarrow>
        (\<forall>r \<in> set (is_codes (snd (handleAuthorizationCodeGrant sha256 now now2 st c client req))).
           code_Code r = tk_Code req \<longrightarrow> code_Used r))
   \<and> ((\<forall>r \<in> set (is_codes st). code_Code r = tk_Code req \<longrightarrow> code_Used r)
        \<and> tk_Code req \<noteq> '''' \<and> tk_RedirectURI req \<noteq> '''' \<and> tk_CodeVerifier req \<noteq> '''' \<longrightarrow>
        (\<exists>d. fst (handleAuthorizationCodeGrant sha256 now now2 st c client req)
                = oauth_error 400 ''invalid_grant'' d)
        \<and> is_access_tokens (snd (handleAuthorizationCodeGrant sha256 now now2 st c client req))
            = is_access_tokens st
        \<and> is_refresh_tokens (snd (handleAuthorizationCodeGrant sha256 now now2 st c client req))
            = is_refresh_tokens st)"
proof (intro conjI impI ballI)
  show "list_all2 used_step (is_codes st)
     (is_codes (snd (handleAuthorizationCodeGrant sha256 now now2 st c client req)))"
    by (rule handle_used_step)
next
  assume "fault_of st = None"
  then show "fst (MarkAuthorizationCodeUsed st code) = None"
    and "is_codes (snd (MarkAuthorizationCodeUsed st code)) = map (mark_used code) (is_codes st)"
    by (simp_all add: MarkAuthorizationCodeUsed_codes)
next
  fix r
  assume "fst (handleAuthorizationCodeGrant sha256 now now2 st c client req) = RespToken 200 tr
        \<and> fault_of (snd (authcode_checks sha256 now st client req)) = None"
    and "r \<in> set (is_codes (snd (handleAuthorizationCodeGrant sha256 now now2 st c client req)))"
    and "code_Code r = tk_Code req"
  then show "code_Used r"
    using handle_marks [of sha256 now now2 st c client req tr r] by blast
next
  assume a: "(\<forall>r \<in> set (is_codes st). code_Code r = tk_Code req \<longrightarrow> code_Used r)
        \<and> tk_Code req \<noteq> '''' \<and> tk_RedirectURI req \<noteq> '''' \<and> tk_CodeVerifier req \<noteq> ''''"
  from a handle_rejects_used [of st req sha256 now now2 c client]
  show "\<exists>d. fst (handleAuthorizationCodeGrant sha256 now now2 st c client req)
                = oauth_error 400 ''invalid_grant'' d"
    and "is_access_tokens (snd (handleAuthorizationCodeGrant sha256 now now2 st c client req))
            = is_access_tokens st"
    and "is_refresh_tokens (snd (handleAuthorizationCodeGrant sha256 now now2 st c client req))
            = is_refresh_tokens st"
    by blast+
qed

lemma example_exchange:
  "handleAuthorizationCodeGrant sha256_table 0 1
     (issuer_with [code_K] [] [] [Inr ''r1'', Inr ''a1'']) token_request client_cid exchange_K
   = (RespToken 200
        \<lparr>otr_AccessToken = ''YTE'', otr_TokenType = ''Bearer'', otr_ExpiresIn = 3599,
         otr_RefreshToken = ''cjE'', otr_Scope = ''mcp:read''\<rparr>,
      \<lparr>is_clients = [client_cid], is_codes = [code_K\<lparr>code_Used := True\<rparr>],
       is_access_tokens =
         [\<lparr>at_ID = 1, at_AccessToken = ''YTE'', at_ClientID = ''cid'', at_UserID = Some 7,
           at_Scope = ''mcp:read'', at_ExpiresAt = hour, at_RefreshTokenID = Some 1,
           at_Audience = ''http://x'', at_Revoked = False\<rparr>],
       is_refresh_tokens =
         [\<lparr>rt_ID = 1, rt_RefreshToken = ''cjE'', rt_ClientID = ''cid'', rt_UserID = 7,
           rt_Scope = ''mcp:read'', rt_ExpiresAt = 30 * 24 * hour, rt_Revoked = False,
           rt_RotationCount = 0\<rparr>],
       is_faults = [], is_entropy = [],
       is_log = [SelectCode ''K'', UpdateCodeUsed ''K'', InsertRefreshToken ''cjE'',
                 InsertAccessToken ''YTE'']\<rparr>)"
  by code_simp

theorem C3_code_single_use_witness:
  "fst (handleAuthorizationCodeGrant sha256_table 0 1
          (issuer_with [code_K] [] [] [Inr ''r1'', Inr ''a1'']) token_request client_cid exchange_K)
     = RespToken 200
        \<lparr>otr_AccessToken = ''YTE'', otr_TokenType = ''Bearer'', otr_ExpiresIn = 3599,
         otr_RefreshToken = ''cjE'', otr_Scope = ''mcp:read''\<rparr>
   \<and> (\<exists>d. fst (handleAuthorizationCodeGrant sha256_table 5 6
          (snd (handleAuthorizationCodeGrant sha256_table 0 1
             (issuer_with [code_K] [] [] [Inr ''r1'', Inr ''a1'']) token_request client_cid exchange_K))
          token_request client_cid exchange_K) = oauth_error 400 ''invalid_grant'' d)
   \<and> map at_AccessToken (is_access_tokens (snd (handleAuthorizationCodeGrant sha256_table 5 6
          (snd (handleAuthorizationCodeGrant sha256_table 0 1
             (issuer_with [code_K] [] [] [Inr ''r1'', Inr ''a1'']) token_request client_cid exchange_K))
          token_request client_cid exchange_K))) = [''YTE'']"
proof -
  let ?st = "issuer_with [code_K] [] [] [Inr ''r1'', Inr ''a1'']"
  let ?first = "handleAuthorizationCodeGrant sha256_table 0 1 ?st token_request client_cid exchange_K"
  let ?tr = "\<lparr>otr_AccessToken = ''YTE'', otr_TokenType = ''Bearer'', otr_ExpiresIn = 3599,
         otr_RefreshToken = ''cjE'', otr_Scope = ''mcp:read''\<rparr>"
  have a: "fst ?first = RespToken 200 ?tr"
    by (simp add: example_exchange)
  have f: "fault_of (snd (authcode_checks sha256_table 0 ?st client_cid exchange_K)) = None"
    by code_simp
  from C3_code_single_use_sequential [of ?st sha256_table 0 1 token_request client_cid exchange_K
      "''K''" ?tr] a f
  have u: "\<forall>r \<in> set (is_codes (snd ?first)). code_Code r = tk_Code exchange_K \<longrightarrow> code_Used r"
    by blast
  have q: "tk_Code exchange_K \<noteq> ''''" "tk_RedirectURI exchange_K \<noteq> ''''"
    "tk_CodeVerifier exchange_K \<noteq> ''''"
    by (simp_all add: exchange_K_def)
  from C3_code_single_use_sequential [of "snd ?first" sha256_table 5 6 token_request client_cid
      exchange_K "''K''" ?tr] u q
  have b: "\<exists>d. fst (handleAuthorizationCodeGrant sha256_table 5 6 (snd ?first) token_request
             client_cid exchange_K) = oauth_error 400 ''invalid_grant'' d"
    and t: "is_access_tokens (snd (handleAuthorizationCodeGrant sha256_table 5 6 (snd ?first)
             token_request client_cid exchange_K)) = is_access_tokens (snd ?first)"
    by blast+
  have "map at_AccessToken (is_access_tokens (snd ?first)) = [''YTE'']"
    by (simp add: example_exchange)
  with a b t show ?thesis by simp
qed

text \<open>
  The claim as stated fails: the marking is not a conditional update and no outcome of it
  is treated as replay.  Marking a code that is already used reports nothing; and when two
  exchanges of one code are served concurrently and both pass the checks before either
  marks the code, both are answered with tokens.
\<close>

theorem C3_concurrent_exchange_counterexample:
  "fst (MarkAuthorizationCodeUsed (issuer_with [code_K\<lparr>code_Used := True\<rparr>] [] [] []) ''K'') = None
   \<and> fst (exchanges_interleaved sha256_table 0 1
          (issuer_with [code_K] [] [] [Inr ''r1'', Inr ''a1'', Inr ''r2'', Inr ''a2''])
          token_request client_cid exchange_K exchange_K)
       = RespToken 200
          \<lparr>otr_AccessToken = ''YTE'', otr_TokenType = ''Bearer'', otr_ExpiresIn = 3599,
           otr_RefreshToken = ''cjE'', otr_Scope = ''mcp:read''\<rparr>
   \<and> fst (snd (exchanges_interleaved sha256_table 0 1
          (issuer_with [code_K] [] [] [Inr ''r1'', Inr ''a1'', Inr ''r2'', Inr ''a2''])
          token_request client_cid exchange_K exchange_K))
       = RespToken 200
          \<lparr>otr_AccessToken = ''YTI'', otr_TokenType = ''Bearer'', otr_ExpiresIn = 3599,
           otr_RefreshToken = ''cjI'', otr_Scope = ''mcp:read''\<rparr>
   \<and> map at_AccessToken (is_access_tokens (snd (snd (exchanges_interleaved sha256_table 0 1
          (issuer_with [code_K] [] [] [Inr ''r1'', Inr ''a1'', Inr ''r2'', Inr ''a2''])
          token_request client_cid exchange_K exchange_K)))) = [''YTE'', ''YTI'']"
  by code_simp

text \<open>
  Besides, the handler only logs a failure of the marking statement: the exchange is still
  answered with tokens, the code stays unused, and the same exchange succeeds again.
\<close>

lemma failed_marking_allows_replay:
  "fst (handleAuthorizationCodeGrant sha256_table 0 1
          (issuer_with [code_K] [] [None, Some (Err ''database is locked'')]
             [Inr ''r1'', Inr ''a1'', Inr ''r2'', Inr ''a2''])
          token_request client_cid exchange_K)
     = RespToken 200
        \<lparr>otr_AccessToken = ''YTE'', otr_TokenType = ''Bearer'', otr_ExpiresIn = 3599,
         otr_RefreshToken = ''cjE'', otr_Scope = ''mcp:read''\<rparr>
   \<and> fst (handleAuthorizationCodeGrant sha256_table 0 1
          (snd (handleAuthorizationCodeGrant sha256_table 0 1
             (issuer_with [code_K] [] [None, Some (Err ''database is locked'')]
                [Inr ''r1'', Inr ''a1'', Inr ''r2'', Inr ''a2''])
             token_request client_cid exchange_K))
          token_request client_cid exchange_K)
     = RespToken 200
        \<lparr>otr_AccessToken = ''YTI'', otr_TokenType = ''Bearer'', otr_ExpiresIn = 3599,
         otr_RefreshToken = ''cjI'', otr_Scope = ''mcp:read''\<rparr>"
  by code_simp

subsection \<open>Errors of the authorization endpoint\<close>







end
